theory Spec2Isabelle
  imports Complex_Main "HOL-Library.Sublist"
begin

section \<open>Persisted values\<close>

text \<open>
  The \<open>model\<close> column of a task is an opaque JSON value (\<open>task.model as unknown\<close>).
  A number is the double it was parsed to, held as a rational: JSON carries no NaN
  and no infinity. An object is the list of its own properties; none of the keys the
  processor reads from it is a property of \<open>Object.prototype\<close>.
\<close>

datatype json =
    JNull
  | JBool bool
  | JNum rat
  | JStr string
  | JArr "json list"
  | JObj "(string \<times> json) list"

definition field :: "(string \<times> json) list \<Rightarrow> string \<Rightarrow> json option" where
  "field obj k = map_of obj k"

text \<open>\<open>typeof v === 'string'\<close> and \<open>typeof v === 'number'\<close>, on a property that may be absent.\<close>

fun asString :: "json option \<Rightarrow> string option" where
  "asString (Some (JStr s)) = Some s"
| "asString _ = None"

fun asNumber :: "json option \<Rightarrow> rat option" where
  "asNumber (Some (JNum n)) = Some n"
| "asNumber _ = None"

section \<open>Model descriptor resolver\<close>

record BytebotAgentModel =
  provider :: string
  name :: string
  title :: string
  contextWindow :: "rat option"

definition startsWith :: "string \<Rightarrow> string \<Rightarrow> bool" where
  "startsWith s p = prefix p s"

definition str_includes :: "string \<Rightarrow> string \<Rightarrow> bool" where
  "str_includes s p = sublist p s"

definition inferProvider :: "string \<Rightarrow> string" where
  "inferProvider nm =
     (if startsWith nm ''claude'' then ''anthropic''
      else if startsWith nm ''gemini'' then ''google''
      else if startsWith nm ''gpt-'' \<or> str_includes nm ''openai'' then ''openai''
      else ''proxy'')"

definition defaultModel :: BytebotAgentModel where
  "defaultModel =
     \<lparr>provider = ''openai'', name = ''gpt-4.1-mini'', title = ''gpt-4.1-mini'',
      contextWindow = None\<rparr>"

text \<open>
  The coercion at the head of \<open>runIteration\<close>. The first branch needs a truthy,
  non-array object; a string (also the empty one, which is falsy) reaches the second.
\<close>

definition resolveModel :: "json \<Rightarrow> BytebotAgentModel" where
  "resolveModel rawModel =
     (case rawModel of
        JObj obj \<Rightarrow>
          (case asString (field obj ''name'') of
             None \<Rightarrow> defaultModel
           | Some n \<Rightarrow>
               (case asString (field obj ''provider'') of
                  Some p \<Rightarrow>
                    \<lparr>provider = p, name = n,
                     title = (case asString (field obj ''title'') of Some t \<Rightarrow> t | None \<Rightarrow> n),
                     contextWindow = asNumber (field obj ''contextWindow'')\<rparr>
                | None \<Rightarrow>
                    \<lparr>provider = inferProvider n, name = n,
                     title = (case asString (field obj ''title'') of Some t \<Rightarrow> t | None \<Rightarrow> n),
                     contextWindow = None\<rparr>))
      | JStr s \<Rightarrow>
          \<lparr>provider = inferProvider s, name = s, title = s, contextWindow = None\<rparr>
      | _ \<Rightarrow> defaultModel)"

definition knownProviders :: "string set" where
  "knownProviders = {''anthropic'', ''openai'', ''google'', ''proxy''}"

text \<open>The persisted value is an object that names its provider and its model itself.\<close>

definition hasExplicitProvider :: "json \<Rightarrow> bool" where
  "hasExplicitProvider rawModel =
     (case rawModel of
        JObj obj \<Rightarrow>
          asString (field obj ''provider'') \<noteq> None \<and> asString (field obj ''name'') \<noteq> None
      | _ \<Rightarrow> False)"

definition persistedProvider :: "json \<Rightarrow> string option" where
  "persistedProvider rawModel =
     (case rawModel of JObj obj \<Rightarrow> asString (field obj ''provider'') | _ \<Rightarrow> None)"

section \<open>Tasks, messages and content blocks\<close>

datatype TaskStatus = PENDING | RUNNING | NEEDS_HELP | COMPLETED | FAILED | CANCELLED

datatype Role = USER | ASSISTANT

record Task =
  status :: TaskStatus
  model :: json

text \<open>
  The input of a tool-use block, with the fields the processor reads typed as the
  block types of the shared package declare them (\<open>status\<close> and \<open>description\<close> of
  \<open>set_task_status\<close>; \<open>description\<close>, \<open>type\<close>, \<open>priority\<close> and \<open>scheduledFor\<close> of
  \<open>create_task\<close>); everything else is carried along in \<open>input_rest\<close>.
\<close>

record ToolInput =
  input_status :: string
  input_description :: string
  input_type :: "string option"
  input_priority :: "string option"
  input_scheduledFor :: "string option"
  input_rest :: json

datatype MessageContentBlock =
    Text string
  | ToolUse string string ToolInput
  | ToolResult string "MessageContentBlock list" "bool option"

text \<open>
  \<open>ToolUse id name input\<close> and \<open>ToolResult tool_use_id content is_error\<close>; an absent
  \<open>is_error\<close> is \<open>None\<close>. The timestamps of a message play no part and are left out.
\<close>

record Message =
  message_id :: string
  taskId :: string
  summaryId :: "string option"
  role :: Role
  content :: "MessageContentBlock list"

record Summary =
  summary_id :: string
  summary_content :: string

text \<open>\<open>totalTokens\<close> is \<open>tokenUsage.totalTokens\<close> of the response.\<close>

record BytebotAgentResponse =
  contentBlocks :: "MessageContentBlock list"
  totalTokens :: rat

text \<open>
  A thrown value as the handlers see it: its \<open>name\<close> property, if it has one, and the
  message that \<open>normalizeError\<close> computes from it. That message is \<open>undefined\<close>
  (\<open>None\<close>) when the value thrown is \<open>undefined\<close>, a function or a symbol, for which
  \<open>JSON.stringify\<close> returns \<open>undefined\<close>.
\<close>

record thrown =
  err_name :: "string option"
  err_message :: "string option"

text \<open>The two system prompts are constants of a module that is not part of the sources.\<close>

datatype Prompt = AGENT_SYSTEM_PROMPT | SUMMARIZATION_SYSTEM_PROMPT

record TaskUpdate =
  upd_status :: TaskStatus
  upd_error :: "string option"
  upd_completedAt :: bool

record CreateTaskDto =
  dto_description :: string
  dto_type :: "string option"
  dto_createdBy :: Role
  dto_scheduledFor :: "string option"
  dto_model :: json
  dto_priority :: "string option"

text \<open>
  Every call the processor makes on a collaborator that has an effect there, with its
  arguments. \<open>GenerateMessage\<close> carries the provider tag of the service called, the
  prompt, the messages, the model name and the tools flag.
\<close>

datatype Effect =
    TasksUpdate string TaskUpdate
  | TasksCreate CreateTaskDto
  | MessagesCreate string Role "MessageContentBlock list"
  | SummariesCreate string string
  | AttachSummary string string "string list"
  | GenerateMessage string Prompt "Message list" string bool
  | HandleComputerToolUse MessageContentBlock
  | SetImmediate string
  | SetTimeout string nat
  | InputCaptureStart string
  | InputCaptureStop

text \<open>
  What the collaborators answer during one iteration: a value, or the value thrown.
  The task id is the one of the iteration. \<open>attachSummary\<close> and \<open>inputCapture.start\<close>
  have no entry: the first is the last call of a block that drops whatever is thrown,
  the second is not awaited.
\<close>

record Env =
  findById :: "thrown + Task"
  findLatest :: "thrown + Summary option"
  findUnsummarized :: "thrown + Message list"
  generateMessage ::
    "string \<Rightarrow> Prompt \<Rightarrow> Message list \<Rightarrow> string \<Rightarrow> bool \<Rightarrow> thrown + BytebotAgentResponse"
  handleComputerToolUse :: "MessageContentBlock \<Rightarrow> thrown + MessageContentBlock"
  messagesCreate :: "Role \<Rightarrow> MessageContentBlock list \<Rightarrow> thrown option"
  summariesCreate :: "string \<Rightarrow> thrown + Summary"
  tasksUpdate :: "TaskUpdate \<Rightarrow> thrown option"
  tasksCreate :: "CreateTaskDto \<Rightarrow> thrown option"
  inputCaptureStop :: "thrown option"

section \<open>The processor\<close>

datatype AbortController = AbortController bool

text \<open>
  The fields of \<open>AgentProcessor\<close>. The three per-task tables are maps from task ids
  (ids are generated by the store; none is a property name of \<open>Object.prototype\<close>).
  \<open>trace\<close> is not a field of the class: it records the effects so far, oldest first.
\<close>

record AgentProcessor =
  currentTaskId :: "string option"
  isProcessing :: bool
  abortController :: "AbortController option"
  retryCounts :: "string \<rightharpoonup> nat"
  computerToolFailures :: "string \<rightharpoonup> nat"
  computerToolsDisabled :: "string \<rightharpoonup> bool"
  trace :: "Effect list"

definition MAX_INTERRUPT_RETRIES :: nat where
  "MAX_INTERRUPT_RETRIES = 3"

definition initial :: AgentProcessor where
  "initial =
     \<lparr>currentTaskId = None, isProcessing = False, abortController = None,
      retryCounts = Map.empty, computerToolFailures = Map.empty,
      computerToolsDisabled = Map.empty, trace = []\<rparr>"

text \<open>
  \<open>this.services[tag]\<close> on the object literal the constructor builds: one of the four
  registered services, a property inherited from \<open>Object.prototype\<close> (truthy, and
  without a \<open>generateMessage\<close>), or \<open>undefined\<close>.
\<close>

datatype ServiceLookup = Registered | Inherited | Undefined

definition objectPrototypeKeys :: "string set" where
  "objectPrototypeKeys =
     {''constructor'', ''__proto__'', ''hasOwnProperty'', ''isPrototypeOf'',
      ''propertyIsEnumerable'', ''toLocaleString'', ''toString'', ''valueOf'',
      ''__defineGetter__'', ''__defineSetter__'', ''__lookupGetter__'', ''__lookupSetter__''}"

definition services :: "string \<Rightarrow> ServiceLookup" where
  "services tag =
     (if tag \<in> knownProviders then Registered
      else if tag \<in> objectPrototypeKeys then Inherited
      else Undefined)"

definition call :: "Effect \<Rightarrow> AgentProcessor \<Rightarrow> AgentProcessor" where
  "call eff w = w\<lparr>trace := trace w @ [eff]\<rparr>"

definition clearProcessing :: "AgentProcessor \<Rightarrow> AgentProcessor" where
  "clearProcessing w = w\<lparr>isProcessing := False, currentTaskId := None\<rparr>"

definition abort :: "AgentProcessor \<Rightarrow> AgentProcessor" where
  "abort w = w\<lparr>abortController := map_option (\<lambda>_. AbortController True) (abortController w)\<rparr>"

text \<open>
  An awaited call: the effect is recorded, then either the value thrown leaves the
  enclosing \<open>try\<close> with the state as it is, or the rest of the body runs.
\<close>

definition awaitUnit ::
  "thrown option \<Rightarrow> Effect \<Rightarrow> AgentProcessor \<Rightarrow>
   (AgentProcessor \<Rightarrow> thrown option \<times> AgentProcessor) \<Rightarrow> thrown option \<times> AgentProcessor" where
  "awaitUnit r eff w k = (case r of Some e \<Rightarrow> (Some e, call eff w) | None \<Rightarrow> k (call eff w))"

definition awaitRead ::
  "thrown + 'a \<Rightarrow> AgentProcessor \<Rightarrow>
   ('a \<Rightarrow> AgentProcessor \<Rightarrow> thrown option \<times> AgentProcessor) \<Rightarrow> thrown option \<times> AgentProcessor" where
  "awaitRead r w k = (case r of Inl e \<Rightarrow> (Some e, w) | Inr v \<Rightarrow> k v w)"

section \<open>Conversation assembly\<close>

definition syntheticMessage :: "string \<Rightarrow> string \<Rightarrow> Message" where
  "syntheticMessage tid txt =
     \<lparr>message_id = [], taskId = tid, summaryId = None, role = USER, content = [Text txt]\<rparr>"

definition advisoryText :: string where
  "advisoryText = ''System notice: Desktop automation tools (computer_*) are unavailable. Do not request computer_* tool calls. Provide next instructions or ask the user for needed information instead.''"

definition summarizeInstruction :: string where
  "summarizeInstruction = ''Respond with a summary of the messages above. Do not include any additional information.''"

definition assembleMessages ::
  "string \<Rightarrow> Summary option \<Rightarrow> Message list \<Rightarrow> bool \<Rightarrow> Message list" where
  "assembleMessages tid latestSummary unsummarizedMessages disabled =
     (case latestSummary of
        Some s \<Rightarrow> [syntheticMessage tid (summary_content s)]
      | None \<Rightarrow> [])
     @ unsummarizedMessages
     @ (if disabled then [syntheticMessage tid advisoryText] else [])"

section \<open>Summarization\<close>

text \<open>
  Numbers are IEEE doubles, held as the rationals they are. A product is the exact
  product rounded to the nearest double, ties to the even mantissa. A double is a
  multiple \<open>m * 2^(i - 1074)\<close> with \<open>|m| \<le> 2^53\<close> and \<open>i\<close> from 0 to 2045;
  \<open>quantum i\<close> is that power of two, and \<open>findQuantum\<close> looks for the least \<open>i\<close> whose
  multiples reach the value. \<open>roundDouble\<close> is \<open>None\<close> where the result is infinite.
\<close>

definition quantum :: "nat \<Rightarrow> rat" where
  "quantum i = 2 ^ i / 2 ^ 1074"

fun findQuantum :: "nat \<Rightarrow> nat \<Rightarrow> rat \<Rightarrow> nat option" where
  "findQuantum 0 i x = None"
| "findQuantum (Suc n) i x =
     (if \<bar>x\<bar> < 2 ^ 53 * quantum i then Some i else findQuantum n (Suc i) x)"

definition roundHalfEven :: "rat \<Rightarrow> int" where
  "roundHalfEven r =
     (let f = \<lfloor>r\<rfloor>; d = r - of_int f
      in if d < 1 / 2 then f else if 1 / 2 < d then f + 1 else if even f then f else f + 1)"

definition roundDouble :: "rat \<Rightarrow> rat option" where
  "roundDouble x =
     (case findQuantum 2046 0 x of
        None \<Rightarrow> None
      | Some i \<Rightarrow>
          (let y = quantum i * of_int (roundHalfEven (x / quantum i))
           in if \<bar>y\<bar> < 2 ^ 1024 then Some y else None))"

text \<open>
  \<open>totalTokens >= contextWindow * 0.75\<close>: 0.75 is a double, the product is rounded,
  the comparison is exact. An infinite product has the sign of the window.
\<close>

definition reachesThreshold :: "rat \<Rightarrow> rat \<Rightarrow> bool" where
  "reachesThreshold tokens window =
     (case roundDouble (window * (3 / 4)) of
        Some contextThreshold \<Rightarrow> tokens \<ge> contextThreshold
      | None \<Rightarrow> window < 0)"

text \<open>\<open>model.contextWindow || 200000\<close>: an absent window and a window of 0 are both falsy.\<close>

definition effectiveContextWindow :: "BytebotAgentModel \<Rightarrow> rat" where
  "effectiveContextWindow m =
     (case contextWindow m of
        None \<Rightarrow> 200000
      | Some c \<Rightarrow> if c = 0 then 200000 else c)"

definition shouldSummarize :: "BytebotAgentModel \<Rightarrow> BytebotAgentResponse \<Rightarrow> bool" where
  "shouldSummarize m r = reachesThreshold (totalTokens r) (effectiveContextWindow m)"

fun join :: "string \<Rightarrow> string list \<Rightarrow> string" where
  "join sep [] = []"
| "join sep [x] = x"
| "join sep (x # y # ys) = x @ sep @ join sep (y # ys)"

fun textOf :: "MessageContentBlock \<Rightarrow> string option" where
  "textOf (Text t) = Some t"
| "textOf _ = None"

definition summaryContent :: "MessageContentBlock list \<Rightarrow> string" where
  "summaryContent blocks = join [CHR 0x0A] (List.map_filter textOf blocks)"

text \<open>
  \<open>service.generateMessage(...)\<close> on what the lookup returned: a property inherited
  from \<open>Object.prototype\<close> has no such method, and the call is a TypeError.
\<close>

definition notAFunction :: thrown where
  "notAFunction =
     \<lparr>err_name = Some ''TypeError'',
      err_message = Some ''service.generateMessage is not a function''\<rparr>"

definition callGenerateMessage ::
  "Env \<Rightarrow> ServiceLookup \<Rightarrow> string \<Rightarrow> Prompt \<Rightarrow> Message list \<Rightarrow> string \<Rightarrow> bool \<Rightarrow>
   AgentProcessor \<Rightarrow> (thrown + BytebotAgentResponse) \<times> AgentProcessor" where
  "callGenerateMessage env service tag prompt msgs nm useTools w =
     (if service = Registered
      then (generateMessage env tag prompt msgs nm useTools,
            call (GenerateMessage tag prompt msgs nm useTools) w)
      else (Inl notAFunction, w))"

text \<open>The summarization block: whatever is thrown inside it is logged and dropped.\<close>

definition summarize ::
  "Env \<Rightarrow> string \<Rightarrow> ServiceLookup \<Rightarrow> Message list \<Rightarrow> BytebotAgentModel \<Rightarrow>
   BytebotAgentResponse \<Rightarrow> AgentProcessor \<Rightarrow> AgentProcessor" where
  "summarize env tid service messages m agentResponse w =
     (if shouldSummarize m agentResponse then
        (case callGenerateMessage env service (provider m) SUMMARIZATION_SYSTEM_PROMPT
                (messages @ [syntheticMessage tid summarizeInstruction]) (name m) False w of
           (Inl e, w1) \<Rightarrow> w1
         | (Inr summaryResponse, w1) \<Rightarrow>
             (let c = summaryContent (contentBlocks summaryResponse);
                  w2 = call (SummariesCreate tid c) w1
              in case summariesCreate env c of
                   Inl e \<Rightarrow> w2
                 | Inr summary \<Rightarrow>
                     call (AttachSummary tid (summary_id summary) (map message_id messages)) w2))
      else w)"

section \<open>Tool dispatch\<close>

text \<open>
  Modelled from the spec: the three type guards of the shared package, which is not
  part of the sources. A tool-use block whose name starts with \<open>computer_\<close> is a
  desktop tool; \<open>create_task\<close> and \<open>set_task_status\<close> are the control tools.
\<close>

fun isComputerToolUseContentBlock :: "MessageContentBlock \<Rightarrow> bool" where
  "isComputerToolUseContentBlock (ToolUse i n inp) = startsWith n ''computer_''"
| "isComputerToolUseContentBlock _ = False"

fun isCreateTaskToolUseBlock :: "MessageContentBlock \<Rightarrow> bool" where
  "isCreateTaskToolUseBlock (ToolUse i n inp) = (n = ''create_task'')"
| "isCreateTaskToolUseBlock _ = False"

fun isSetTaskStatusToolUseBlock :: "MessageContentBlock \<Rightarrow> bool" where
  "isSetTaskStatusToolUseBlock (ToolUse i n inp) = (n = ''set_task_status'')"
| "isSetTaskStatusToolUseBlock _ = False"

fun blockId :: "MessageContentBlock \<Rightarrow> string" where
  "blockId (ToolUse i n inp) = i"
| "blockId (ToolResult i c e) = i"
| "blockId (Text t) = []"

fun blockName :: "MessageContentBlock \<Rightarrow> string" where
  "blockName (ToolUse i n inp) = n"
| "blockName _ = []"

fun blockInput :: "MessageContentBlock \<Rightarrow> ToolInput option" where
  "blockInput (ToolUse i n inp) = Some inp"
| "blockInput _ = None"

text \<open>\<open>result.is_error\<close> as a condition: true only for a result marked \<open>true\<close>.\<close>

fun resultIsError :: "MessageContentBlock \<Rightarrow> bool" where
  "resultIsError (ToolResult i c (Some True)) = True"
| "resultIsError _ = False"

text \<open>\<open>toUpperCase\<close>, on the ASCII letters; other characters are kept.\<close>

definition upperChar :: "char \<Rightarrow> char" where
  "upperChar c =
     (let n = (of_char c :: nat) in if 97 \<le> n \<and> n \<le> 122 then char_of (n - 32) else c)"

definition toUpperCase :: "string \<Rightarrow> string" where
  "toUpperCase s = map upperChar s"

datatype SweepOutcome = Continue | Returned | Threw thrown

definition degradedUpdate :: TaskUpdate where
  "degradedUpdate =
     \<lparr>upd_status = NEEDS_HELP,
      upd_error = Some ''Desktop automation unavailable. Please provide guidance or perform actions manually.'',
      upd_completedAt = False\<rparr>"

text \<open>The first \<open>if\<close> of the loop body: a desktop tool, and the failure counter.\<close>

definition computerStep ::
  "Env \<Rightarrow> string \<Rightarrow> MessageContentBlock \<Rightarrow> MessageContentBlock list \<Rightarrow> AgentProcessor \<Rightarrow>
   SweepOutcome \<times> MessageContentBlock list \<times> AgentProcessor" where
  "computerStep env tid block results w =
     (if isComputerToolUseContentBlock block then
        (let w1 = call (HandleComputerToolUse block) w in
         case handleComputerToolUse env block of
           Inl e \<Rightarrow> (Threw e, results, w1)
         | Inr result \<Rightarrow>
             (let results1 = results @ [result] in
              if resultIsError result \<and> startsWith (blockName block) ''computer_'' then
                (let failures = (case computerToolFailures w1 tid of None \<Rightarrow> 0 | Some n \<Rightarrow> n) + 1;
                     w2 = w1\<lparr>computerToolFailures := (computerToolFailures w1)(tid \<mapsto> failures)\<rparr>
                 in if failures \<ge> 2 \<and> computerToolsDisabled w2 tid \<noteq> Some True then
                      (let w3 = w2\<lparr>computerToolsDisabled := (computerToolsDisabled w2)(tid \<mapsto> True)\<rparr>;
                           w4 = call (TasksUpdate tid degradedUpdate) w3
                       in case tasksUpdate env degradedUpdate of
                            Some e \<Rightarrow> (Threw e, results1, w4)
                          | None \<Rightarrow> (Returned, results1, clearProcessing w4))
                    else (Continue, results1, w2))
              else (Continue, results1, w1)))
      else (Continue, results, w))"

text \<open>The second \<open>if\<close>: a subtask. \<open>scheduledFor\<close> is passed on only when it is truthy.\<close>

definition createTaskDto :: "Task \<Rightarrow> ToolInput \<Rightarrow> CreateTaskDto" where
  "createTaskDto task inp =
     \<lparr>dto_description = input_description inp,
      dto_type = map_option toUpperCase (input_type inp),
      dto_createdBy = ASSISTANT,
      dto_scheduledFor =
        (case input_scheduledFor inp of
           Some s \<Rightarrow> if s = [] then None else Some s
         | None \<Rightarrow> None),
      dto_model = model task,
      dto_priority = map_option toUpperCase (input_priority inp)\<rparr>"

definition createTaskStep ::
  "Env \<Rightarrow> Task \<Rightarrow> MessageContentBlock \<Rightarrow> MessageContentBlock list \<Rightarrow> AgentProcessor \<Rightarrow>
   SweepOutcome \<times> MessageContentBlock list \<times> AgentProcessor" where
  "createTaskStep env task block results w =
     (case block of
        ToolUse i n inp \<Rightarrow>
          (if isCreateTaskToolUseBlock block then
             (let dto = createTaskDto task inp; w1 = call (TasksCreate dto) w in
              case tasksCreate env dto of
                Some e \<Rightarrow> (Threw e, results, w1)
              | None \<Rightarrow>
                  (Continue, results @ [ToolResult i [Text ''The task has been created''] None], w1))
           else (Continue, results, w))
      | _ \<Rightarrow> (Continue, results, w))"

text \<open>The third \<open>if\<close>: the block is remembered and answered; no status is written here.\<close>

definition setTaskStatusStep ::
  "MessageContentBlock \<Rightarrow> MessageContentBlock list \<Rightarrow> MessageContentBlock option \<Rightarrow>
   MessageContentBlock list \<times> MessageContentBlock option" where
  "setTaskStatusStep block results setBlock =
     (case block of
        ToolUse i n inp \<Rightarrow>
          (if isSetTaskStatusToolUseBlock block then
             (results @ [ToolResult i [Text (input_description inp)] (Some (input_status inp = ''failed''))],
              Some block)
           else (results, setBlock))
      | _ \<Rightarrow> (results, setBlock))"

text \<open>The \<open>for\<close> loop over the content blocks of the assistant turn.\<close>

fun sweep ::
  "Env \<Rightarrow> string \<Rightarrow> Task \<Rightarrow> MessageContentBlock list \<Rightarrow> MessageContentBlock list \<Rightarrow>
   MessageContentBlock option \<Rightarrow> AgentProcessor \<Rightarrow>
   SweepOutcome \<times> MessageContentBlock list \<times> MessageContentBlock option \<times> AgentProcessor" where
  "sweep env tid task [] results setBlock w = (Continue, results, setBlock, w)"
| "sweep env tid task (block # rest) results setBlock w =
     (case computerStep env tid block results w of
        (Continue, results1, w1) \<Rightarrow>
          (case createTaskStep env task block results1 w1 of
             (Continue, results2, w2) \<Rightarrow>
               (case setTaskStatusStep block results2 setBlock of
                  (results3, setBlock3) \<Rightarrow> sweep env tid task rest results3 setBlock3 w2)
           | (out, results2, w2) \<Rightarrow> (out, results2, setBlock, w2))
      | (out, results1, w1) \<Rightarrow> (out, results1, setBlock, w1))"

definition completedUpdate :: TaskUpdate where
  "completedUpdate = \<lparr>upd_status = COMPLETED, upd_error = None, upd_completedAt = True\<rparr>"

definition needsHelpUpdate :: TaskUpdate where
  "needsHelpUpdate = \<lparr>upd_status = NEEDS_HELP, upd_error = None, upd_completedAt = False\<rparr>"

text \<open>The \<open>switch\<close> on the status of the remembered block: the updates it writes.\<close>

definition statusUpdateOf :: "MessageContentBlock option \<Rightarrow> TaskUpdate option" where
  "statusUpdateOf setBlock =
     (case setBlock of
        Some (ToolUse i n inp) \<Rightarrow>
          (if input_status inp = ''completed'' then Some completedUpdate
           else if input_status inp = ''needs_help'' then Some needsHelpUpdate
           else None)
      | _ \<Rightarrow> None)"

definition scheduleNext :: "string \<Rightarrow> AgentProcessor \<Rightarrow> thrown option \<times> AgentProcessor" where
  "scheduleNext tid w = (None, if isProcessing w then call (SetImmediate tid) w else w)"

definition applyStatus ::
  "Env \<Rightarrow> string \<Rightarrow> MessageContentBlock option \<Rightarrow> AgentProcessor \<Rightarrow>
   thrown option \<times> AgentProcessor" where
  "applyStatus env tid setBlock w =
     (case statusUpdateOf setBlock of
        Some u \<Rightarrow> awaitUnit (tasksUpdate env u) (TasksUpdate tid u) w (scheduleNext tid)
      | None \<Rightarrow> scheduleNext tid w)"

definition afterSweep ::
  "Env \<Rightarrow> string \<Rightarrow> MessageContentBlock list \<Rightarrow> MessageContentBlock option \<Rightarrow>
   AgentProcessor \<Rightarrow> thrown option \<times> AgentProcessor" where
  "afterSweep env tid results setBlock w =
     (if results \<noteq> [] then
        awaitUnit (messagesCreate env USER results) (MessagesCreate tid USER results) w
          (applyStatus env tid setBlock)
      else applyStatus env tid setBlock w)"

definition dispatch ::
  "Env \<Rightarrow> string \<Rightarrow> Task \<Rightarrow> MessageContentBlock list \<Rightarrow> AgentProcessor \<Rightarrow>
   thrown option \<times> AgentProcessor" where
  "dispatch env tid task blocks w =
     (case sweep env tid task blocks [] None w of
        (Continue, results, setBlock, w1) \<Rightarrow> afterSweep env tid results setBlock w1
      | (Returned, results, setBlock, w1) \<Rightarrow> (None, w1)
      | (Threw e, results, setBlock, w1) \<Rightarrow> (Some e, w1))"

section \<open>One iteration\<close>

text \<open>\<open>message.slice(0, 500) || fallback\<close>, on a message that is a string.\<close>

definition errorText :: "string \<Rightarrow> string \<Rightarrow> string" where
  "errorText msg fallback = (if take 500 msg = [] then fallback else take 500 msg)"

text \<open>\<open>message.slice\<close> on a message that is \<open>undefined\<close>: the TypeError it throws.\<close>

definition sliceOfUndefined :: thrown where
  "sliceOfUndefined =
     \<lparr>err_name = Some ''TypeError'',
      err_message = Some ''Cannot read properties of undefined (reading 'slice')''\<rparr>"

definition failedUpdate :: "string option \<Rightarrow> TaskUpdate" where
  "failedUpdate err = \<lparr>upd_status = FAILED, upd_error = err, upd_completedAt = False\<rparr>"

definition stopAfter :: "AgentProcessor \<Rightarrow> thrown option \<times> AgentProcessor" where
  "stopAfter w = (None, clearProcessing w)"

text \<open>From the persisted assistant message to the scheduling of the next turn.\<close>

definition afterResponse ::
  "Env \<Rightarrow> string \<Rightarrow> Task \<Rightarrow> ServiceLookup \<Rightarrow> Message list \<Rightarrow> BytebotAgentModel \<Rightarrow>
   BytebotAgentResponse \<Rightarrow> AgentProcessor \<Rightarrow> thrown option \<times> AgentProcessor" where
  "afterResponse env tid task service messages m agentResponse w =
     (let messageContentBlocks = contentBlocks agentResponse in
      if messageContentBlocks = [] then
        awaitUnit (tasksUpdate env (failedUpdate (Some ''No content blocks returned from model'')))
          (TasksUpdate tid (failedUpdate (Some ''No content blocks returned from model''))) w stopAfter
      else
        awaitUnit (messagesCreate env ASSISTANT messageContentBlocks)
          (MessagesCreate tid ASSISTANT messageContentBlocks) w
          (\<lambda>w1. dispatch env tid task messageContentBlocks
                  (summarize env tid service messages m agentResponse w1)))"

text \<open>
  The provider lookup and the first provider call, with its own \<open>try\<close>: whatever that
  call throws is caught there, and the task is marked FAILED with its message. When
  the message is \<open>undefined\<close>, \<open>message.slice\<close> throws inside that \<open>catch\<close>, before
  the update, and the TypeError goes to the handler of the iteration.
\<close>

definition consultModel ::
  "Env \<Rightarrow> string \<Rightarrow> Task \<Rightarrow> Message list \<Rightarrow> AgentProcessor \<Rightarrow> thrown option \<times> AgentProcessor" where
  "consultModel env tid task messages w =
     (let m = resolveModel (model task); service = services (provider m) in
      if service = Undefined then
        awaitUnit (tasksUpdate env (failedUpdate None)) (TasksUpdate tid (failedUpdate None)) w stopAfter
      else
        (case callGenerateMessage env service (provider m) AGENT_SYSTEM_PROMPT messages (name m) True w of
           (Inl llmErr, w1) \<Rightarrow>
             (case err_message llmErr of
                None \<Rightarrow> (Some sliceOfUndefined, w1)
              | Some msg \<Rightarrow>
                  awaitUnit (tasksUpdate env (failedUpdate (Some (errorText msg ''LLM error''))))
                    (TasksUpdate tid (failedUpdate (Some (errorText msg ''LLM error'')))) w1
                    stopAfter)
         | (Inr agentResponse, w1) \<Rightarrow>
             afterResponse env tid task service messages m agentResponse w1))"

text \<open>The body of the \<open>try\<close> of \<open>runIteration\<close>.\<close>

definition tryIteration :: "Env \<Rightarrow> string \<Rightarrow> AgentProcessor \<Rightarrow> thrown option \<times> AgentProcessor" where
  "tryIteration env tid w =
     awaitRead (findById env) w (\<lambda>task w0.
       if status task \<noteq> RUNNING then stopAfter w0
       else
         (let w1 = w0\<lparr>abortController := Some (AbortController False)\<rparr> in
          awaitRead (findLatest env) w1 (\<lambda>latestSummary w2.
            awaitRead (findUnsummarized env) w2 (\<lambda>unsummarizedMessages w3.
              consultModel env tid task
                (assembleMessages tid latestSummary unsummarizedMessages
                   (computerToolsDisabled w3 tid = Some True)) w3))))"

definition isInterrupt :: "thrown \<Rightarrow> bool" where
  "isInterrupt err =
     (err_name err = Some ''BytebotAgentInterrupt'' \<or>
      err_message err = Some ''BytebotAgentInterrupt'')"

definition interruptedUpdate :: TaskUpdate where
  "interruptedUpdate =
     \<lparr>upd_status = NEEDS_HELP,
      upd_error = Some ''Processing interrupted multiple times (model/tool aborted). You can resume or take over.'',
      upd_completedAt = False\<rparr>"

definition finishFailed :: "string \<Rightarrow> AgentProcessor \<Rightarrow> AgentProcessor" where
  "finishFailed tid w =
     w\<lparr>retryCounts := (retryCounts w)(tid := None), isProcessing := False, currentTaskId := None\<rparr>"

text \<open>
  The handler of the iteration. An update that throws here rejects the promise of
  the iteration, and the three assignments after it do not run; so does
  \<open>message.slice\<close> on a message that is \<open>undefined\<close>, before the update is called.
\<close>

definition catchBlock :: "Env \<Rightarrow> string \<Rightarrow> thrown \<Rightarrow> AgentProcessor \<Rightarrow> AgentProcessor" where
  "catchBlock env tid err w =
     (if isInterrupt err then
        (let current = (case retryCounts w tid of None \<Rightarrow> 0 | Some n \<Rightarrow> n) in
         if current < MAX_INTERRUPT_RETRIES then
           call (SetTimeout tid 500) (w\<lparr>retryCounts := (retryCounts w)(tid \<mapsto> current + 1)\<rparr>)
         else
           (case tasksUpdate env interruptedUpdate of
              Some e \<Rightarrow> call (TasksUpdate tid interruptedUpdate) w
            | None \<Rightarrow> finishFailed tid (call (TasksUpdate tid interruptedUpdate) w)))
      else
        (case err_message err of
           None \<Rightarrow> w
         | Some msg \<Rightarrow>
             (let u = failedUpdate (Some (errorText msg ''Processing error'')) in
              case tasksUpdate env u of
                Some e \<Rightarrow> call (TasksUpdate tid u) w
              | None \<Rightarrow> finishFailed tid (call (TasksUpdate tid u) w))))"

text \<open>
  One iteration, run to its end: the collaborators' answers are those of \<open>env\<close>, and
  no lifecycle event is delivered between two of its steps.
\<close>

definition runIteration :: "Env \<Rightarrow> string \<Rightarrow> AgentProcessor \<Rightarrow> AgentProcessor" where
  "runIteration env tid w =
     (if \<not> isProcessing w then w
      else
        (case tryIteration env tid w of
           (None, w1) \<Rightarrow> w1
         | (Some err, w1) \<Rightarrow> catchBlock env tid err w1))"

text \<open>The callback of the retry timer.\<close>

definition retryCallback :: "Env \<Rightarrow> string \<Rightarrow> AgentProcessor \<Rightarrow> AgentProcessor" where
  "retryCallback env tid w =
     (if isProcessing w \<and> currentTaskId w = Some tid then runIteration env tid w else w)"

section \<open>Lifecycle operations\<close>

definition handleTaskTakeover :: "string \<Rightarrow> AgentProcessor \<Rightarrow> AgentProcessor" where
  "handleTaskTakeover tid w =
     call (InputCaptureStart tid)
       (if currentTaskId w = Some tid \<and> isProcessing w then abort w else w)"

definition handleTaskResume :: "Env \<Rightarrow> string \<Rightarrow> AgentProcessor \<Rightarrow> AgentProcessor" where
  "handleTaskResume env tid w =
     (if currentTaskId w = Some tid \<and> isProcessing w then
        runIteration env tid (w\<lparr>abortController := Some (AbortController False)\<rparr>)
      else w)"

definition stopProcessing :: "Env \<Rightarrow> AgentProcessor \<Rightarrow> AgentProcessor" where
  "stopProcessing env w =
     (if \<not> isProcessing w then w
      else
        (let w1 = call InputCaptureStop (abort w) in
         case inputCaptureStop env of
           Some e \<Rightarrow> w1
         | None \<Rightarrow> clearProcessing w1))"

definition handleTaskCancel :: "Env \<Rightarrow> string \<Rightarrow> AgentProcessor \<Rightarrow> AgentProcessor" where
  "handleTaskCancel env tid w = stopProcessing env w"

definition processTask :: "Env \<Rightarrow> string \<Rightarrow> AgentProcessor \<Rightarrow> AgentProcessor" where
  "processTask env tid w =
     (if isProcessing w then w
      else
        runIteration env tid
          (w\<lparr>isProcessing := True, currentTaskId := Some tid,
             abortController := Some (AbortController False)\<rparr>))"

section \<open>Runs of the processor\<close>

text \<open>
  What can happen to the processor: a call of \<open>processTask\<close>, a scheduled iteration,
  the retry timer, one of the three lifecycle events, \<open>stopProcessing\<close>.
\<close>

datatype Event =
    ProcessTask Env string
  | Iteration Env string
  | RetryTimer Env string
  | Takeover string
  | Resume Env string
  | Cancel Env string
  | StopProcessing Env

fun step :: "Event \<Rightarrow> AgentProcessor \<Rightarrow> AgentProcessor" where
  "step (ProcessTask env tid) w = processTask env tid w"
| "step (Iteration env tid) w = runIteration env tid w"
| "step (RetryTimer env tid) w = retryCallback env tid w"
| "step (Takeover tid) w = handleTaskTakeover tid w"
| "step (Resume env tid) w = handleTaskResume env tid w"
| "step (Cancel env tid) w = handleTaskCancel env tid w"
| "step (StopProcessing env) w = stopProcessing env w"

definition run :: "Event list \<Rightarrow> AgentProcessor \<Rightarrow> AgentProcessor" where
  "run evs w = fold step evs w"

section \<open>Properties as the specification words them\<close>

text \<open>The three-way invariant of the singleton state.\<close>

definition singletonInvariant :: "AgentProcessor \<Rightarrow> bool" where
  "singletonInvariant w =
     ((isProcessing w \<longleftrightarrow> currentTaskId w \<noteq> None) \<and>
      (currentTaskId w \<noteq> None \<longleftrightarrow> abortController w \<noteq> None))"

text \<open>What does hold: the two flags agree, and a processing processor has a handle.\<close>

definition processingInvariant :: "AgentProcessor \<Rightarrow> bool" where
  "processingInvariant w =
     ((isProcessing w \<longleftrightarrow> currentTaskId w \<noteq> None) \<and>
      (isProcessing w \<longrightarrow> abortController w \<noteq> None))"

text \<open>The processor has a cancellation handle.\<close>

definition hasHandle :: "AgentProcessor \<Rightarrow> bool" where
  "hasHandle w = (abortController w \<noteq> None)"


text \<open>No ephemeral entry of the task is left.\<close>

definition ephemeralCleared :: "string \<Rightarrow> AgentProcessor \<Rightarrow> bool" where
  "ephemeralCleared tid w =
     (retryCounts w tid = None \<and> computerToolFailures w tid = None \<and>
      computerToolsDisabled w tid = None)"

text \<open>An object with a string \<open>name\<close>, and a string.\<close>

definition usableObject :: "json \<Rightarrow> bool" where
  "usableObject rawModel =
     (case rawModel of JObj obj \<Rightarrow> asString (field obj ''name'') \<noteq> None | _ \<Rightarrow> False)"

fun isString :: "json \<Rightarrow> bool" where
  "isString (JStr s) = True"
| "isString _ = False"

text \<open>The id lists handed to \<open>attachSummary\<close>, and the task updates, of a trace.\<close>

fun attachedIds :: "Effect \<Rightarrow> string list option" where
  "attachedIds (AttachSummary t s ids) = Some ids"
| "attachedIds _ = None"

fun taskUpdateOf :: "Effect \<Rightarrow> TaskUpdate option" where
  "taskUpdateOf (TasksUpdate t u) = Some u"
| "taskUpdateOf _ = None"

section \<open>Sample collaborators\<close>

definition sampleInput :: ToolInput where
  "sampleInput =
     \<lparr>input_status = [], input_description = [], input_type = None, input_priority = None,
      input_scheduledFor = None, input_rest = JNull\<rparr>"

text \<open>
  Collaborators that never throw: the task is as given, there is no summary and no
  earlier message, the provider answers \<open>resp\<close>, and every desktop tool fails.
\<close>

definition sampleEnv :: "Task \<Rightarrow> BytebotAgentResponse \<Rightarrow> Env" where
  "sampleEnv task resp =
     \<lparr>findById = Inr task, findLatest = Inr None, findUnsummarized = Inr [],
      generateMessage = (\<lambda>tag prompt msgs nm useTools. Inr resp),
      handleComputerToolUse = (\<lambda>b. Inr (ToolResult (blockId b) [Text ''desktop unreachable''] (Some True))),
      messagesCreate = (\<lambda>r blocks. None),
      summariesCreate = (\<lambda>c. Inr \<lparr>summary_id = ''s1'', summary_content = c\<rparr>),
      tasksUpdate = (\<lambda>u. None),
      tasksCreate = (\<lambda>d. None),
      inputCaptureStop = None\<rparr>"

definition runningTask :: "json \<Rightarrow> Task" where
  "runningTask m = \<lparr>status = RUNNING, model = m\<rparr>"

definition interrupt :: thrown where
  "interrupt =
     \<lparr>err_name = Some ''BytebotAgentInterrupt'', err_message = Some ''BytebotAgentInterrupt''\<rparr>"

text \<open>A task whose persisted model names a provider that no service is registered for.\<close>

definition unknownProviderEnv :: Env where
  "unknownProviderEnv =
     sampleEnv (runningTask (JObj [(''provider'', JStr ''mystery''), (''name'', JStr ''x'')]))
       \<lparr>contentBlocks = [Text ''hi''], totalTokens = 0\<rparr>"

text \<open>A provider call that is aborted and throws the interrupt.\<close>

definition interruptedProviderEnv :: Env where
  "interruptedProviderEnv =
     (sampleEnv (runningTask (JStr ''gpt-4.1'')) \<lparr>contentBlocks = [], totalTokens = 0\<rparr>)
       \<lparr>generateMessage := (\<lambda>tag prompt msgs nm useTools. Inl interrupt)\<rparr>"


text \<open>The task updates among the effects of a trace, in order.\<close>

abbreviation taskUpdates :: "Effect list \<Rightarrow> TaskUpdate list" where
  "taskUpdates tr \<equiv> List.map_filter taskUpdateOf tr"

text \<open>A processor that is processing task \<open>t\<close>, with one desktop failure counted.\<close>

definition processingT :: AgentProcessor where
  "processingT =
     initial\<lparr>isProcessing := True, currentTaskId := Some ''t'',
       abortController := Some (AbortController False)\<rparr>"

definition oneFailure :: AgentProcessor where
  "oneFailure = processingT\<lparr>computerToolFailures := [''t'' \<mapsto> 1]\<rparr>"

definition screenshot :: MessageContentBlock where
  "screenshot = ToolUse ''u1'' ''computer_screenshot'' sampleInput"

definition setStatus :: "string \<Rightarrow> string \<Rightarrow> MessageContentBlock" where
  "setStatus st d =
     ToolUse ''u2'' ''set_task_status'' (sampleInput\<lparr>input_status := st, input_description := d\<rparr>)"

definition gptTask :: Task where
  "gptTask = runningTask (JStr ''gpt-4.1'')"

text \<open>
  A turn that reaches the summarization threshold, on a task that has a summary, one
  unsummarized message and desktop tools disabled.
\<close>

definition earlierMessage :: Message where
  "earlierMessage =
     \<lparr>message_id = ''m1'', taskId = ''t'', summaryId = None, role = USER,
      content = [Text ''open the browser'']\<rparr>"

definition summarizingEnv :: Env where
  "summarizingEnv =
     (sampleEnv gptTask \<lparr>contentBlocks = [Text ''on it''], totalTokens = 160000\<rparr>)
       \<lparr>findLatest := Inr (Some \<lparr>summary_id = ''s0'', summary_content = ''so far''\<rparr>),
        findUnsummarized := Inr [earlierMessage]\<rparr>"

definition degradedT :: AgentProcessor where
  "degradedT = processingT\<lparr>computerToolsDisabled := [''t'' \<mapsto> True]\<rparr>"

text \<open>No effect of the list is a call of \<open>attachSummary\<close>.\<close>

definition noAttach :: "Effect list \<Rightarrow> bool" where
  "noAttach new = (\<forall>e \<in> set new. attachedIds e = None)"

text \<open>
  Entries of the two desktop tables are kept from one state to another: a failure
  count is still there and has not gone down, and an entry of the other table is as
  it was or has been set to \<open>true\<close>.
\<close>

definition tablesKept :: "AgentProcessor \<Rightarrow> AgentProcessor \<Rightarrow> bool" where
  "tablesKept w w' =
     ((\<forall>t n. computerToolFailures w t = Some n \<longrightarrow>
         (\<exists>m. computerToolFailures w' t = Some m \<and> n \<le> m)) \<and>
      (\<forall>t. computerToolsDisabled w' t = computerToolsDisabled w t \<or>
           computerToolsDisabled w' t = Some True))"

text \<open>
  The iteration that an event runs, if it runs one: the collaborators, the task id and
  the state in which \<open>runIteration\<close> is called.
\<close>

fun iterationOf :: "Event \<Rightarrow> AgentProcessor \<Rightarrow> (Env \<times> string \<times> AgentProcessor) option" where
  "iterationOf (ProcessTask env tid) w =
     (if isProcessing w then None
      else Some (env, tid,
             w\<lparr>isProcessing := True, currentTaskId := Some tid,
               abortController := Some (AbortController False)\<rparr>))"
| "iterationOf (Iteration env tid) w = Some (env, tid, w)"
| "iterationOf (RetryTimer env tid) w =
     (if isProcessing w \<and> currentTaskId w = Some tid then Some (env, tid, w) else None)"
| "iterationOf (Resume env tid) w =
     (if currentTaskId w = Some tid \<and> isProcessing w
      then Some (env, tid, w\<lparr>abortController := Some (AbortController False)\<rparr>)
      else None)"
| "iterationOf (Takeover tid) w = None"
| "iterationOf (Cancel env tid) w = None"
| "iterationOf (StopProcessing env) w = None"

definition ephemeralKept :: "AgentProcessor \<Rightarrow> AgentProcessor \<Rightarrow> bool" where
  "ephemeralKept w w' = (retryCounts w' = retryCounts w \<and> tablesKept w w')"

text \<open>A turn without tools, a turn that fails at the desktop and then declares the task
  completed, and the task as the store returns it afterwards.\<close>

definition happyEnv :: Env where
  "happyEnv = sampleEnv gptTask \<lparr>contentBlocks = [Text ''working on it''], totalTokens = 10\<rparr>"

definition completingEnv :: Env where
  "completingEnv =
     sampleEnv gptTask
       \<lparr>contentBlocks = [screenshot, setStatus ''completed'' ''done''], totalTokens = 10\<rparr>"

definition completedEnv :: Env where
  "completedEnv =
     sampleEnv \<lparr>status = COMPLETED, model = JStr ''gpt-4.1''\<rparr>
       \<lparr>contentBlocks = [], totalTokens = 0\<rparr>"

text \<open>A task whose persisted provider is the name of a property of \<open>Object.prototype\<close>.\<close>

definition constructorEnv :: Env where
  "constructorEnv =
     sampleEnv (runningTask (JObj [(''provider'', JStr ''constructor''), (''name'', JStr ''x'')]))
       \<lparr>contentBlocks = [Text ''hi''], totalTokens = 0\<rparr>"

text \<open>A store that is down, and a processor that has retried twice.\<close>

definition failingStoreEnv :: Env where
  "failingStoreEnv =
     happyEnv\<lparr>findById := Inl \<lparr>err_name = Some ''Error'', err_message = Some ''connection lost''\<rparr>\<rparr>"

definition retriedTwice :: AgentProcessor where
  "retriedTwice = processingT\<lparr>retryCounts := [''t'' \<mapsto> 2]\<rparr>"


section \<open>The descriptor resolver\<close>

lemma inferProvider_known: "inferProvider nm \<in> knownProviders"
  by (simp add: inferProvider_def knownProviders_def)

lemma default_known: "provider defaultModel \<in> knownProviders"
  by (simp add: defaultModel_def knownProviders_def)

lemma claude_not_gemini: "startsWith nm ''claude'' \<Longrightarrow> \<not> startsWith nm ''gemini''"
  by (auto simp: startsWith_def prefix_def)

text \<open>
  C3, as stated: every persisted value resolves to a descriptor with one of the four
  known provider tags. It fails on an object that names a provider of its own: the
  resolver takes the tag as it is.
\<close>

theorem resolveModel_provider_counterexample:
  "provider (resolveModel (JObj [(''provider'', JStr ''foo''), (''name'', JStr ''x'')]))
     \<notin> knownProviders"
  by (simp add: resolveModel_def field_def knownProviders_def)

text \<open>
  C3, amended: the resolver is total (it is a function on all of \<open>json\<close>); on an object
  with a string \<open>provider\<close> and a string \<open>name\<close> the tag of the descriptor is the
  persisted string, whatever it is, and on every other value it is one of
  \<open>anthropic\<close>, \<open>openai\<close>, \<open>google\<close>, \<open>proxy\<close>.
\<close>

theorem resolveModel_provider:
  "(hasExplicitProvider rawModel \<longrightarrow>
      persistedProvider rawModel = Some (provider (resolveModel rawModel))) \<and>
   (\<not> hasExplicitProvider rawModel \<longrightarrow> provider (resolveModel rawModel) \<in> knownProviders)"
  by (cases rawModel)
     (auto simp: hasExplicitProvider_def persistedProvider_def resolveModel_def default_known
        inferProvider_known split: option.splits)

theorem resolveModel_provider_witness:
  "hasExplicitProvider (JObj [(''provider'', JStr ''foo''), (''name'', JStr ''x'')]) \<and>
   provider (resolveModel (JObj [(''provider'', JStr ''foo''), (''name'', JStr ''x'')])) = ''foo'' \<and>
   \<not> hasExplicitProvider (JNum 42) \<and>
   provider (resolveModel (JNum 42)) \<in> knownProviders \<and>
   \<not> hasExplicitProvider (JStr ''claude-3-sonnet'') \<and>
   provider (resolveModel (JStr ''claude-3-sonnet'')) \<in> knownProviders"
  using resolveModel_provider [of "JObj [(''provider'', JStr ''foo''), (''name'', JStr ''x'')]"]
    resolveModel_provider [of "JNum 42"] resolveModel_provider [of "JStr ''claude-3-sonnet''"]
  by (simp add: hasExplicitProvider_def persistedProvider_def field_def)

text \<open>
  C9: the provider of a bare name is inferred by prefix, the rules being tried in the
  order in which they are listed: a name starting with \<open>claude\<close> is \<open>anthropic\<close>; one
  starting with \<open>gemini\<close> is \<open>google\<close>; one starting with \<open>gpt-\<close> or containing
  \<open>openai\<close> is \<open>openai\<close>; any other is \<open>proxy\<close>. A string is resolved as the name, an object with
  a string \<open>name\<close> and no string \<open>provider\<close> by its name, and a value that is neither
  a string nor an object with a string \<open>name\<close> resolves to the default descriptor
  \<open>{openai, gpt-4.1-mini, gpt-4.1-mini}\<close>.
\<close>

theorem inferProvider_first_match:
  "(startsWith nm ''claude'' \<longrightarrow> inferProvider nm = ''anthropic'') \<and>
   (startsWith nm ''gemini'' \<longrightarrow> inferProvider nm = ''google'') \<and>
   (\<not> startsWith nm ''claude'' \<and> \<not> startsWith nm ''gemini'' \<and>
      (startsWith nm ''gpt-'' \<or> str_includes nm ''openai'') \<longrightarrow> inferProvider nm = ''openai'') \<and>
   (\<not> startsWith nm ''claude'' \<and> \<not> startsWith nm ''gemini'' \<and>
      \<not> startsWith nm ''gpt-'' \<and> \<not> str_includes nm ''openai'' \<longrightarrow> inferProvider nm = ''proxy'') \<and>
   resolveModel (JStr nm) =
      \<lparr>provider = inferProvider nm, name = nm, title = nm, contextWindow = None\<rparr> \<and>
   (asString (field obj ''name'') = Some nm \<and> asString (field obj ''provider'') = None \<longrightarrow>
      provider (resolveModel (JObj obj)) = inferProvider nm \<and> name (resolveModel (JObj obj)) = nm) \<and>
   (\<not> usableObject rawModel \<and> \<not> isString rawModel \<longrightarrow>
      resolveModel rawModel =
        \<lparr>provider = ''openai'', name = ''gpt-4.1-mini'', title = ''gpt-4.1-mini'',
         contextWindow = None\<rparr>)"
  using claude_not_gemini [of nm]
  by (cases rawModel)
     (auto simp: inferProvider_def resolveModel_def usableObject_def defaultModel_def
        split: option.splits)

theorem inferProvider_first_match_witness:
  "inferProvider ''claude-3-sonnet'' = ''anthropic'' \<and>
   inferProvider ''gemini-pro'' = ''google'' \<and>
   inferProvider ''gpt-4.1'' = ''openai'' \<and>
   inferProvider ''my-openai-model'' = ''openai'' \<and>
   inferProvider ''llama3'' = ''proxy'' \<and>
   provider (resolveModel (JObj [(''name'', JStr ''gemini-pro'')])) = ''google'' \<and>
   resolveModel (JNum 42) = defaultModel \<and>
   resolveModel (JArr []) = defaultModel \<and>
   resolveModel JNull = defaultModel \<and>
   resolveModel (JObj [(''name'', JNum 1)]) = defaultModel"
  using inferProvider_first_match [of "''claude-3-sonnet''" "[]" JNull]
    inferProvider_first_match [of "''gemini-pro''" "[(''name'', JStr ''gemini-pro'')]" "JNum 42"]
    inferProvider_first_match [of "''gpt-4.1''" "[]" "JArr []"]
    inferProvider_first_match [of "''my-openai-model''" "[]" "JObj [(''name'', JNum 1)]"]
    inferProvider_first_match [of "''llama3''" "[]" "JNull"]
  by (simp add: startsWith_def str_includes_def sublist_Cons_right usableObject_def field_def
      defaultModel_def)

section \<open>Provider lookup and the provider call\<close>

lemmas iteration_defs =
  runIteration_def tryIteration_def consultModel_def afterResponse_def awaitRead_def awaitUnit_def
  stopAfter_def callGenerateMessage_def call_def clearProcessing_def

text \<open>
  C2, as stated: on a provider tag without a service the task is marked FAILED with the
  error \<open>no service for provider <tag>\<close>. The update that the iteration writes carries
  no error at all.
\<close>

theorem unknown_provider_counterexample:
  "trace (processTask unknownProviderEnv ''t'' initial) = [TasksUpdate ''t'' (failedUpdate None)] \<and>
   TasksUpdate ''t'' (failedUpdate (Some ''no service for provider mystery''))
     \<notin> set (trace (processTask unknownProviderEnv ''t'' initial))"
  by (simp add: processTask_def initial_def unknownProviderEnv_def sampleEnv_def runningTask_def
      iteration_defs resolveModel_def field_def services_def knownProviders_def
      objectPrototypeKeys_def failedUpdate_def Let_def)

text \<open>
  C2, amended: in an iteration that reaches the provider lookup (the processor is
  processing, the task is RUNNING, summary and messages were read) and finds nothing
  under the provider tag of the resolved descriptor, the only effect is one update of
  the task to FAILED, without an error and without a completion time; the iteration
  then clears \<open>isProcessing\<close> and \<open>currentTaskId\<close> and stops: no provider is called, no
  message is written, nothing is scheduled.
\<close>

theorem unknown_provider_fails_without_error:
  assumes "isProcessing w" and "findById env = Inr task" and "status task = RUNNING"
    and "findLatest env = Inr latestSummary" and "findUnsummarized env = Inr unsummarized"
    and "services (provider (resolveModel (model task))) = Undefined"
    and "tasksUpdate env (failedUpdate None) = None"
  shows "runIteration env tid w =
           w\<lparr>abortController := Some (AbortController False),
             trace := trace w @
               [TasksUpdate tid \<lparr>upd_status = FAILED, upd_error = None, upd_completedAt = False\<rparr>],
             isProcessing := False, currentTaskId := None\<rparr>"
  using assms by (simp add: iteration_defs failedUpdate_def Let_def)

theorem unknown_provider_fails_without_error_witness:
  "runIteration unknownProviderEnv ''t''
     (initial\<lparr>isProcessing := True, currentTaskId := Some ''t''\<rparr>) =
   initial\<lparr>abortController := Some (AbortController False),
     trace := [TasksUpdate ''t'' \<lparr>upd_status = FAILED, upd_error = None, upd_completedAt = False\<rparr>]\<rparr>"
  using unknown_provider_fails_without_error
    [of "initial\<lparr>isProcessing := True, currentTaskId := Some ''t''\<rparr>" unknownProviderEnv
      "runningTask (JObj [(''provider'', JStr ''mystery''), (''name'', JStr ''x'')])"
      None "[]" "''t''"]
  by (simp add: initial_def unknownProviderEnv_def sampleEnv_def runningTask_def resolveModel_def
      field_def services_def knownProviders_def objectPrototypeKeys_def)

text \<open>
  A tag that is the name of an inherited property finds that property, not a service:
  the lookup succeeds, the call is a TypeError, and the task fails with its message.
\<close>

lemma inherited_property_is_no_service:
  "trace (processTask constructorEnv ''t'' initial) =
     [TasksUpdate ''t''
        (failedUpdate (Some ''service.generateMessage is not a function''))]"
  by (simp add: processTask_def initial_def constructorEnv_def sampleEnv_def runningTask_def
      iteration_defs resolveModel_def field_def services_def knownProviders_def
      objectPrototypeKeys_def failedUpdate_def notAFunction_def errorText_def Let_def)

text \<open>
  C7, at a provider call that throws the interrupt (name and message
  \<open>BytebotAgentInterrupt\<close>) in the first iteration of a task: the \<open>try\<close> around the call
  catches it, the task is marked FAILED with the message as its error, the processing
  state is cleared, no retry is counted and no timer is set.
\<close>

theorem interrupt_from_provider_marks_failed:
  "trace (processTask interruptedProviderEnv ''t'' initial) =
     [GenerateMessage ''openai'' AGENT_SYSTEM_PROMPT [] ''gpt-4.1'' True,
      TasksUpdate ''t''
        \<lparr>upd_status = FAILED, upd_error = Some ''BytebotAgentInterrupt'', upd_completedAt = False\<rparr>] \<and>
   isInterrupt interrupt \<and>
   \<not> isProcessing (processTask interruptedProviderEnv ''t'' initial) \<and>
   retryCounts (processTask interruptedProviderEnv ''t'' initial) ''t'' = None"
  by (simp add: processTask_def initial_def interruptedProviderEnv_def sampleEnv_def runningTask_def
      iteration_defs resolveModel_def inferProvider_def startsWith_def services_def
      knownProviders_def failedUpdate_def errorText_def interrupt_def isInterrupt_def
      assembleMessages_def Let_def)

text \<open>
  An interrupt that does reach the handler of the iteration (thrown by a store or by
  the desktop tool handler) is retried while fewer than three retries were counted.
\<close>

lemma catchBlock_interrupt:
  assumes "isInterrupt err" and "tasksUpdate env interruptedUpdate = None"
  shows "catchBlock env tid err w =
     (if (case retryCounts w tid of None \<Rightarrow> 0 | Some n \<Rightarrow> n) + 1 \<le> 3 then
        w\<lparr>retryCounts := (retryCounts w)(tid \<mapsto> (case retryCounts w tid of None \<Rightarrow> 0 | Some n \<Rightarrow> n) + 1),
          trace := trace w @ [SetTimeout tid 500]\<rparr>
      else
        w\<lparr>retryCounts := (retryCounts w)(tid := None),
          trace := trace w @ [TasksUpdate tid interruptedUpdate],
          isProcessing := False, currentTaskId := None\<rparr>)"
  using assms
  by (simp add: catchBlock_def MAX_INTERRUPT_RETRIES_def call_def finishFailed_def Let_def)

section \<open>Summarization\<close>

lemma texts_comprehension: "List.map_filter textOf blocks = [t. Text t \<leftarrow> blocks]"
  by (induction blocks)
     (auto simp: List.map_filter_simps split: MessageContentBlock.splits option.splits)

lemma summaryContent_join: "summaryContent blocks = join [CHR 0x0A] [t. Text t \<leftarrow> blocks]"
  by (simp add: summaryContent_def texts_comprehension)

subsection \<open>The rounded product\<close>

lemma findQuantum_le:
  "\<bar>x\<bar> < 2 ^ 53 * quantum j \<Longrightarrow> i \<le> j \<Longrightarrow> j < i + n \<Longrightarrow>
     \<exists>q. findQuantum n i x = Some q \<and> q \<le> j"
proof (induction n arbitrary: i)
  case 0
  then show ?case by simp
next
  case (Suc n)
  show ?case
  proof (cases "\<bar>x\<bar> < 2 ^ 53 * quantum i")
    case True
    with Suc.prems show ?thesis by simp
  next
    case False
    with Suc.prems(1) have "i \<noteq> j" by auto
    with Suc.prems have "Suc i \<le> j" "j < Suc i + n" by auto
    from Suc.IH [OF Suc.prems(1) this] False show ?thesis by simp
  qed
qed

lemma findQuantum_least:
  "\<bar>x\<bar> < 2 ^ 53 * quantum j \<Longrightarrow> \<forall>k<j. \<not> \<bar>x\<bar> < 2 ^ 53 * quantum k \<Longrightarrow> i \<le> j \<Longrightarrow>
     j < i + n \<Longrightarrow> findQuantum n i x = Some j"
proof (induction n arbitrary: i)
  case 0
  then show ?case by simp
next
  case (Suc n)
  show ?case
  proof (cases "i = j")
    case True
    with Suc.prems show ?thesis by simp
  next
    case False
    with Suc.prems have "i < j" by simp
    with Suc.prems(2) have no: "\<not> \<bar>x\<bar> < 2 ^ 53 * quantum i" by blast
    from \<open>i < j\<close> Suc.prems have "Suc i \<le> j" "j < Suc i + n" by auto
    from Suc.IH [OF Suc.prems(1,2) this] no show ?thesis by simp
  qed
qed

lemma quantum_mono: "k \<le> l \<Longrightarrow> quantum k \<le> quantum l"
  by (simp add: quantum_def divide_right_mono power_increasing)

lemma roundHalfEven_int: "roundHalfEven (of_int n) = n"
  by (simp add: roundHalfEven_def)

lemma quantum_split: "q \<le> 1072 \<Longrightarrow> quantum q * 2 ^ (1072 - q) * 4 = 1"
proof -
  assume "q \<le> 1072"
  then have "(1074::nat) = q + (1072 - q) + 2" by simp
  then have "(2::rat) ^ 1074 = 2 ^ q * 2 ^ (1072 - q) * 2 ^ 2"
    by (metis power_add)
  then show ?thesis by (simp add: quantum_def)
qed

text \<open>
  A value below \<open>2^51\<close> that is a multiple of a quarter is a double: rounding keeps it.
\<close>

lemma roundDouble_exact:
  assumes "4 * x = of_int n" and "\<bar>x\<bar> < 2 ^ 51"
  shows "roundDouble x = Some x"
proof -
  have q1072: "quantum 1072 = 1 / 4"
    using quantum_split [of 1072] by simp
  have "\<bar>x\<bar> < 2 ^ 53 * quantum 1072"
    using assms(2) by (simp add: q1072)
  from findQuantum_le [OF this, of 0 2046]
  obtain q where q: "findQuantum 2046 0 x = Some q" "q \<le> 1072" by auto
  have pos: "quantum q > 0" by (simp add: quantum_def)
  from quantum_split [OF q(2)] have inv: "1 / quantum q = 2 ^ (1072 - q) * 4"
    using pos by (simp add: field_simps)
  have "x / quantum q = x * (1 / quantum q)" by simp
  also have "\<dots> = (4 * x) * 2 ^ (1072 - q)" by (simp add: inv)
  also have "\<dots> = of_int (n * 2 ^ (1072 - q))" by (simp add: assms(1))
  finally have m: "x / quantum q = of_int (n * 2 ^ (1072 - q))" .
  have "of_int (roundHalfEven (x / quantum q)) = x / quantum q"
    by (simp only: m roundHalfEven_int)
  then have y: "quantum q * of_int (roundHalfEven (x / quantum q)) = x"
    using pos by simp
  have "\<bar>x\<bar> < (2::rat) ^ 1024"
  proof -
    have "(2::rat) ^ 51 \<le> 2 ^ 1024" by (rule power_increasing) simp_all
    with assms(2) show ?thesis by linarith
  qed
  then show ?thesis by (simp add: roundDouble_def q(1) y Let_def)
qed

text \<open>For a window that is an integer below \<open>2^51\<close>, the threshold is three quarters of it.\<close>

lemma reachesThreshold_exact:
  assumes "window = of_int k" and "\<bar>window\<bar> < 2 ^ 51"
  shows "reachesThreshold tokens window = (tokens \<ge> window * (3 / 4))"
proof -
  have "4 * (window * (3 / 4)) = of_int (3 * k)"
    by (simp add: assms(1))
  moreover have "\<bar>window * (3 / 4)\<bar> < 2 ^ 51"
    using assms(2) by (simp add: abs_mult)
  ultimately have "roundDouble (window * (3 / 4)) = Some (window * (3 / 4))"
    by (rule roundDouble_exact)
  then show ?thesis by (simp add: reachesThreshold_def)
qed

lemma reachesThreshold_default [simp]: "reachesThreshold tokens 200000 = (tokens \<ge> 150000)"
  using reachesThreshold_exact [of 200000 200000 tokens] by simp

lemma reachesThreshold_zero [simp]: "reachesThreshold tokens 0 = (tokens \<ge> 0)"
  using reachesThreshold_exact [of 0 0 tokens] by simp

text \<open>
  Beyond \<open>2^52\<close> the product is rounded: three quarters of the window 9007199254740998
  end in one half, the double below is even, and so a turn of 6755399441055748 tokens
  reaches the threshold.
\<close>

lemma rounded_threshold: "reachesThreshold 6755399441055748 9007199254740998"
proof -
  define x :: rat where "x = 9007199254740998 * (3 / 4)"
  have q1: "quantum 1074 = 1"
    by (simp add: quantum_def)
  have q0: "quantum 1073 = 1 / 2"
  proof -
    have "(2::rat) ^ 1074 = 2 ^ 1073 * 2 ^ 1" by (simp only: power_add [symmetric]) simp
    then show ?thesis by (simp add: quantum_def)
  qed
  have lo: "(2 ^ 53 * (1 / 2) :: rat) \<le> \<bar>x\<bar>" and hi: "\<bar>x\<bar> < 2 ^ 53 * quantum 1074"
    by (simp_all add: x_def q1)
  have below: "\<forall>k<1074. \<not> \<bar>x\<bar> < 2 ^ 53 * quantum k"
  proof (intro allI impI)
    fix k :: nat
    assume "k < 1074"
    then have "quantum k \<le> quantum 1073" by (intro quantum_mono) simp
    then have "2 ^ 53 * quantum k \<le> (2 ^ 53 * (1 / 2) :: rat)"
      by (simp add: q0)
    with lo show "\<not> \<bar>x\<bar> < 2 ^ 53 * quantum k" by linarith
  qed
  from findQuantum_least [OF hi below, of 0 2046]
  have f: "findQuantum 2046 0 x = Some 1074" by simp
  have fl: "\<lfloor>x\<rfloor> = 6755399441055748"
    by (rule floor_unique) (simp_all add: x_def)
  have d: "x - of_int \<lfloor>x\<rfloor> = 1 / 2"
    unfolding fl by (simp add: x_def)
  have r: "roundHalfEven x = 6755399441055748"
    unfolding roundHalfEven_def Let_def d unfolding fl by simp
  have "(6755399441055748 :: rat) < 2 ^ 1024"
  proof -
    have "(6755399441055748 :: rat) < 2 ^ 53" by simp
    also have "(2::rat) ^ 53 \<le> 2 ^ 1024" by (rule power_increasing) simp_all
    finally show ?thesis .
  qed
  then have rd: "roundDouble x = Some 6755399441055748"
    by (simp add: roundDouble_def f q1 r Let_def)
  have "reachesThreshold 6755399441055748 9007199254740998 =
      (case roundDouble x of Some c \<Rightarrow> 6755399441055748 \<ge> c
       | None \<Rightarrow> (9007199254740998 :: rat) < 0)"
    by (simp only: reachesThreshold_def x_def)
  then show ?thesis by (simp add: rd)
qed

subsection \<open>The trigger and the second call\<close>

lemma shouldSummarize_default [simp]:
  "contextWindow m = None \<Longrightarrow> shouldSummarize m r = (totalTokens r \<ge> 150000)"
  by (simp add: shouldSummarize_def effectiveContextWindow_def)


text \<open>
  What the summarization block does otherwise: it makes a call exactly when the
  threshold is reached; its first call is the provider call with the summarization
  prompt, the assembled messages followed by the instruction message, and tools
  disabled; when that call returns, the next call creates a summary whose content is
  the texts of the Text blocks of the response joined by a newline.
\<close>

lemma summarize_calls:
  "(trace (summarize env tid Registered messages m r w) \<noteq> trace w \<longleftrightarrow> shouldSummarize m r) \<and>
   (shouldSummarize m r \<longrightarrow>
      (\<exists>rest. trace (summarize env tid Registered messages m r w) =
         trace w @
         GenerateMessage (provider m) SUMMARIZATION_SYSTEM_PROMPT
           (messages @ [syntheticMessage tid summarizeInstruction]) (name m) False # rest)) \<and>
   (shouldSummarize m r \<and>
    generateMessage env (provider m) SUMMARIZATION_SYSTEM_PROMPT
      (messages @ [syntheticMessage tid summarizeInstruction]) (name m) False = Inr sr \<longrightarrow>
      (\<exists>rest. trace (summarize env tid Registered messages m r w) =
         trace w @
         [GenerateMessage (provider m) SUMMARIZATION_SYSTEM_PROMPT
            (messages @ [syntheticMessage tid summarizeInstruction]) (name m) False,
          SummariesCreate tid (join [CHR 0x0A] [t. Text t \<leftarrow> contentBlocks sr])] @ rest))"
  by (auto simp: summarize_def callGenerateMessage_def call_def Let_def summaryContent_join
      split: sum.splits option.splits)

lemma shouldSummarize_window:
  assumes "contextWindow m = Some c" and "c = of_int k" and "c \<noteq> 0" and "\<bar>c\<bar> < 2 ^ 51"
  shows "shouldSummarize m r = (totalTokens r \<ge> c * (3 / 4))"
  using assms reachesThreshold_exact [of c k "totalTokens r"]
  by (simp add: shouldSummarize_def effectiveContextWindow_def)

lemma summarize_example:
  "trace (summarize
       (sampleEnv (runningTask JNull)
          \<lparr>contentBlocks = [Text ''a'', ToolUse ''u'' ''x'' sampleInput, Text ''b''],
           totalTokens = 160000\<rparr>)
       ''t'' Registered [] defaultModel \<lparr>contentBlocks = [Text ''hi''], totalTokens = 160000\<rparr>
       initial) =
     [GenerateMessage ''openai'' SUMMARIZATION_SYSTEM_PROMPT
        [syntheticMessage ''t'' summarizeInstruction] ''gpt-4.1-mini'' False,
      SummariesCreate ''t'' (''a'' @ [CHR 0x0A] @ ''b''),
      AttachSummary ''t'' ''s1'' []]"
  by (simp add: defaultModel_def sampleEnv_def initial_def summarize_def
      callGenerateMessage_def call_def summaryContent_def List.map_filter_simps)

section \<open>Tool dispatch\<close>

text \<open>
  How an iteration comes to the dispatcher: the task is RUNNING, a registered provider
  answered with at least one block, and the assistant message was written. Whatever
  \<open>dispatch\<close> returns is then what the body of the iteration returns.
\<close>

lemma tryIteration_reaches_dispatch:
  assumes "findById env = Inr task" and "status task = RUNNING"
    and "findLatest env = Inr latestSummary" and "findUnsummarized env = Inr unsummarized"
    and "messages =
           assembleMessages tid latestSummary unsummarized (computerToolsDisabled w tid = Some True)"
    and "m = resolveModel (model task)" and "services (provider m) = Registered"
    and "generateMessage env (provider m) AGENT_SYSTEM_PROMPT messages (name m) True = Inr r"
    and "contentBlocks r \<noteq> []" and "messagesCreate env ASSISTANT (contentBlocks r) = None"
  shows "tryIteration env tid w =
           dispatch env tid task (contentBlocks r)
             (summarize env tid Registered messages m r
                (w\<lparr>abortController := Some (AbortController False),
                   trace := trace w @
                     [GenerateMessage (provider m) AGENT_SYSTEM_PROMPT messages (name m) True,
                      MessagesCreate tid ASSISTANT (contentBlocks r)]\<rparr>))"
  using assms by (simp add: iteration_defs Let_def)

lemma map_filter_append:
  "List.map_filter f (xs @ ys) = List.map_filter f xs @ List.map_filter f ys"
  by (simp add: List.map_filter_def)

lemma sweep_append:
  "sweep env tid task (xs @ ys) results setBlock w =
     (case sweep env tid task xs results setBlock w of
        (Continue, results1, setBlock1, w1) \<Rightarrow> sweep env tid task ys results1 setBlock1 w1
      | other \<Rightarrow> other)"
  by (induction xs arbitrary: results setBlock w)
     (auto split: prod.splits SweepOutcome.splits)

lemma computerStep_degrades:
  assumes "isComputerToolUseContentBlock b" and "handleComputerToolUse env b = Inr r"
    and "resultIsError r" and "computerToolFailures w tid = Some 1"
    and "computerToolsDisabled w tid \<noteq> Some True" and "tasksUpdate env degradedUpdate = None"
  shows "computerStep env tid b results w =
           (Returned, results @ [r],
            w\<lparr>computerToolFailures := (computerToolFailures w)(tid \<mapsto> 2),
              computerToolsDisabled := (computerToolsDisabled w)(tid \<mapsto> True),
              trace := trace w @ [HandleComputerToolUse b, TasksUpdate tid degradedUpdate],
              isProcessing := False, currentTaskId := None\<rparr>)"
proof -
  obtain i n inp where b: "b = ToolUse i n inp" and n: "startsWith n ''computer_''"
    using assms(1) by (cases b) auto
  show ?thesis
    using assms(2-6) n
    by (simp add: computerStep_def b call_def clearProcessing_def Let_def numeral_2_eq_2)
qed

text \<open>
  C5: the blocks \<open>pre\<close> of the turn have been swept without leaving the loop, and the
  next block \<open>b\<close> is a desktop tool whose result is marked as an error, with one
  failure counted for the task so far and degradation not active. Then the counter
  becomes 2, \<open>computerToolsDisabled\<close> is set for the task, the task is updated to
  NEEDS_HELP with the error text, the processing flags are cleared, and the iteration
  ends there: whatever blocks \<open>rest\<close> follow, the outcome is the same, with the call of
  the tool handler and the update as the only effects after \<open>pre\<close> (no later block is
  handled, no tool results are written, no iteration is scheduled).
\<close>

theorem degradation_at_second_failure:
  assumes "sweep env tid task pre [] None w0 = (Continue, results, setBlock, w)"
    and "isComputerToolUseContentBlock b" and "handleComputerToolUse env b = Inr r"
    and "resultIsError r" and "computerToolFailures w tid = Some 1"
    and "computerToolsDisabled w tid \<noteq> Some True" and "tasksUpdate env degradedUpdate = None"
  shows "dispatch env tid task (pre @ b # rest) w0 =
           (None,
            w\<lparr>computerToolFailures := (computerToolFailures w)(tid \<mapsto> 2),
              computerToolsDisabled := (computerToolsDisabled w)(tid \<mapsto> True),
              trace := trace w @
                [HandleComputerToolUse b,
                 TasksUpdate tid
                   \<lparr>upd_status = NEEDS_HELP,
                    upd_error = Some ''Desktop automation unavailable. Please provide guidance or perform actions manually.'',
                    upd_completedAt = False\<rparr>],
              isProcessing := False, currentTaskId := None\<rparr>)"
  using assms(1) computerStep_degrades [OF assms(2-7)]
  by (simp add: dispatch_def sweep_append degradedUpdate_def)

theorem degradation_at_second_failure_witness:
  "dispatch (sampleEnv gptTask \<lparr>contentBlocks = [], totalTokens = 0\<rparr>) ''t'' gptTask
     ([Text ''taking a screenshot''] @ screenshot # [setStatus ''completed'' ''done'']) oneFailure =
   (None,
    oneFailure\<lparr>computerToolFailures := [''t'' \<mapsto> 2],
      computerToolsDisabled := [''t'' \<mapsto> True],
      trace := [HandleComputerToolUse screenshot,
         TasksUpdate ''t''
           \<lparr>upd_status = NEEDS_HELP,
            upd_error = Some ''Desktop automation unavailable. Please provide guidance or perform actions manually.'',
            upd_completedAt = False\<rparr>],
      isProcessing := False, currentTaskId := None\<rparr>)"
  using degradation_at_second_failure
    [of "sampleEnv gptTask \<lparr>contentBlocks = [], totalTokens = 0\<rparr>" "''t''" gptTask
      "[Text ''taking a screenshot'']" oneFailure "[]" None oneFailure screenshot
      "ToolResult ''u1'' [Text ''desktop unreachable''] (Some True)"
      "[setStatus ''completed'' ''done'']"]
  by (simp add: sampleEnv_def screenshot_def oneFailure_def processingT_def initial_def
      computerStep_def createTaskStep_def setTaskStatusStep_def startsWith_def)

lemma sweep_set_task_status:
  "sweep env tid task (ToolUse i ''set_task_status'' inp # rest) results setBlock w =
     sweep env tid task rest
       (results @ [ToolResult i [Text (input_description inp)] (Some (input_status inp = ''failed''))])
       (Some (ToolUse i ''set_task_status'' inp)) w"
  by (simp add: computerStep_def createTaskStep_def setTaskStatusStep_def startsWith_def)

lemma computerStep_results:
  "computerStep env tid b results w = (out, results1, w1) \<Longrightarrow> set results \<subseteq> set results1"
  by (auto simp: computerStep_def Let_def split: if_splits sum.splits option.splits)

lemma computerStep_updates:
  "computerStep env tid b results w = (out, results1, w1) \<Longrightarrow>
     (out = Continue \<longrightarrow> taskUpdates (trace w1) = taskUpdates (trace w)) \<and>
     set (taskUpdates (trace w1)) \<subseteq> set (taskUpdates (trace w)) \<union> {degradedUpdate}"
  by (auto simp: computerStep_def Let_def call_def clearProcessing_def map_filter_append
      List.map_filter_simps split: if_splits sum.splits option.splits)

lemma createTaskStep_results:
  "createTaskStep env task b results w = (out, results1, w1) \<Longrightarrow>
     set results \<subseteq> set results1 \<and> taskUpdates (trace w1) = taskUpdates (trace w)"
  by (auto simp: createTaskStep_def Let_def call_def map_filter_append List.map_filter_simps
      split: if_splits option.splits MessageContentBlock.splits)

lemma setTaskStatusStep_results:
  "setTaskStatusStep b results setBlock = (results1, setBlock1) \<Longrightarrow>
     set results \<subseteq> set results1 \<and>
     (\<forall>i inp. b = ToolUse i ''set_task_status'' inp \<longrightarrow>
        ToolResult i [Text (input_description inp)] (Some (input_status inp = ''failed''))
          \<in> set results1) \<and>
     setBlock1 = (if isSetTaskStatusToolUseBlock b then Some b else setBlock)"
  by (auto simp: setTaskStatusStep_def split: if_splits MessageContentBlock.splits)

lemma sweep_results_mono:
  "sweep env tid task blocks results setBlock w = (out, results', setBlock', w') \<Longrightarrow>
     set results \<subseteq> set results'"
proof (induction blocks arbitrary: results setBlock w)
  case Nil
  then show ?case by simp
next
  case (Cons b blocks)
  obtain o1 r1 w1 where c: "computerStep env tid b results w = (o1, r1, w1)"
    by (cases "computerStep env tid b results w") auto
  obtain o2 r2 w2 where t: "createTaskStep env task b r1 w1 = (o2, r2, w2)"
    by (cases "createTaskStep env task b r1 w1") auto
  obtain r3 s3 where s: "setTaskStatusStep b r2 setBlock = (r3, s3)"
    by (cases "setTaskStatusStep b r2 setBlock") auto
  note m1 = computerStep_results [OF c] and m2 = createTaskStep_results [OF t]
    and m3 = setTaskStatusStep_results [OF s]
  show ?case
  proof (cases "o1 = Continue \<and> o2 = Continue")
    case True
    then have "sweep env tid task blocks r3 s3 w2 = (out, results', setBlock', w')"
      using Cons.prems c t s by simp
    from Cons.IH [OF this] m1 m2 m3 show ?thesis by blast
  next
    case False
    then show ?thesis
      using Cons.prems c t m1 m2 by (cases o1; cases o2) auto
  qed
qed

lemma sweep_continue:
  "sweep env tid task blocks results setBlock w = (Continue, results', setBlock', w') \<Longrightarrow>
     taskUpdates (trace w') = taskUpdates (trace w) \<and>
     setBlock' = (case filter isSetTaskStatusToolUseBlock blocks of
                    [] \<Rightarrow> setBlock | bs \<Rightarrow> Some (last bs)) \<and>
     (\<forall>i inp. ToolUse i ''set_task_status'' inp \<in> set blocks \<longrightarrow>
        ToolResult i [Text (input_description inp)] (Some (input_status inp = ''failed''))
          \<in> set results')"
proof (induction blocks arbitrary: results setBlock w)
  case Nil
  then show ?case by simp
next
  case (Cons b blocks)
  obtain o1 r1 w1 where c: "computerStep env tid b results w = (o1, r1, w1)"
    by (cases "computerStep env tid b results w") auto
  obtain o2 r2 w2 where t: "createTaskStep env task b r1 w1 = (o2, r2, w2)"
    by (cases "createTaskStep env task b r1 w1") auto
  obtain r3 s3 where s: "setTaskStatusStep b r2 setBlock = (r3, s3)"
    by (cases "setTaskStatusStep b r2 setBlock") auto
  have o1: "o1 = Continue"
    using Cons.prems c by (cases o1) auto
  have o2: "o2 = Continue"
    using Cons.prems c t o1 by (cases o2) auto
  have rest: "sweep env tid task blocks r3 s3 w2 = (Continue, results', setBlock', w')"
    using Cons.prems c t s o1 o2 by simp
  note ih = Cons.IH [OF rest]
  note m1 = computerStep_updates [OF c] and m2 = createTaskStep_results [OF t]
    and m3 = setTaskStatusStep_results [OF s] and mono = sweep_results_mono [OF rest]
  have u: "taskUpdates (trace w') = taskUpdates (trace w)"
    using ih m1 m2 o1 by simp
  have sb: "setBlock' = (case filter isSetTaskStatusToolUseBlock (b # blocks) of
                    [] \<Rightarrow> setBlock | bs \<Rightarrow> Some (last bs))"
    using ih m3 by (auto split: list.splits)
  have res: "\<forall>i inp. ToolUse i ''set_task_status'' inp \<in> set (b # blocks) \<longrightarrow>
        ToolResult i [Text (input_description inp)] (Some (input_status inp = ''failed''))
          \<in> set results'"
    using ih m3 mono by auto
  from u sb res show ?case by blast
qed

lemma sweep_updates:
  "sweep env tid task blocks results setBlock w = (out, results', setBlock', w') \<Longrightarrow>
     set (taskUpdates (trace w')) \<subseteq> set (taskUpdates (trace w)) \<union> {degradedUpdate}"
proof (induction blocks arbitrary: results setBlock w)
  case Nil
  then show ?case by auto
next
  case (Cons b blocks)
  obtain o1 r1 w1 where c: "computerStep env tid b results w = (o1, r1, w1)"
    by (cases "computerStep env tid b results w") auto
  obtain o2 r2 w2 where t: "createTaskStep env task b r1 w1 = (o2, r2, w2)"
    by (cases "createTaskStep env task b r1 w1") auto
  obtain r3 s3 where s: "setTaskStatusStep b r2 setBlock = (r3, s3)"
    by (cases "setTaskStatusStep b r2 setBlock") auto
  note m1 = computerStep_updates [OF c] and m2 = createTaskStep_results [OF t]
  show ?case
  proof (cases "o1 = Continue \<and> o2 = Continue")
    case True
    then have "sweep env tid task blocks r3 s3 w2 = (out, results', setBlock', w')"
      using Cons.prems c t s by simp
    from Cons.IH [OF this] m1 m2 True show ?thesis by auto
  next
    case False
    then have "w' = w1 \<or> w' = w2"
      using Cons.prems c t by (cases o1; cases o2) auto
    then show ?thesis using m1 m2 by auto
  qed
qed

lemma dispatch_continue:
  assumes "sweep env tid task blocks [] None w = (Continue, results, setBlock, w1)"
    and "messagesCreate env USER results = None"
    and "\<forall>u. statusUpdateOf setBlock = Some u \<longrightarrow> tasksUpdate env u = None"
  shows "\<exists>w2. dispatch env tid task blocks w = (None, w2) \<and>
           trace w2 = trace w1 @
             (if results = [] then [] else [MessagesCreate tid USER results]) @
             (case statusUpdateOf setBlock of Some u \<Rightarrow> [TasksUpdate tid u] | None \<Rightarrow> []) @
             (if isProcessing w1 then [SetImmediate tid] else [])"
  using assms
  by (auto simp: dispatch_def afterSweep_def applyStatus_def awaitUnit_def scheduleNext_def
      call_def split: option.splits)

text \<open>
  C6: whenever the loop comes to a \<open>set_task_status\<close> block it does nothing but
  remember the block and add a tool result with \<open>is_error\<close> true exactly for the
  status \<open>failed\<close> and the description as its text; the state and the effects are
  untouched. Whatever the outcome of the loop, the only task update it can write is the
  one of the desktop degradation. When the loop has run through all blocks of the
  turn, it has written no task update, the remembered block is the last
  \<open>set_task_status\<close> block of the turn, and every such block has its result; then the
  results are written as one USER message, and only after that the status is updated:
  to COMPLETED with a completion time for \<open>completed\<close>, to NEEDS_HELP for
  \<open>needs_help\<close>, and not at all for any other value, \<open>failed\<close> included.
\<close>

theorem set_task_status_deferred:
  assumes "sweep env tid task blocks [] None w = (out, results, setBlock, w1)"
  shows
    "sweep env tid task (ToolUse i ''set_task_status'' inp # rest) results0 setBlock0 w0 =
       sweep env tid task rest
         (results0 @
            [ToolResult i [Text (input_description inp)] (Some (input_status inp = ''failed''))])
         (Some (ToolUse i ''set_task_status'' inp)) w0 \<and>
     set (taskUpdates (trace w1)) \<subseteq> set (taskUpdates (trace w)) \<union> {degradedUpdate} \<and>
     (out = Continue \<longrightarrow>
        taskUpdates (trace w1) = taskUpdates (trace w) \<and>
        setBlock = (case filter isSetTaskStatusToolUseBlock blocks of
                      [] \<Rightarrow> None | bs \<Rightarrow> Some (last bs)) \<and>
        (\<forall>j inp'. ToolUse j ''set_task_status'' inp' \<in> set blocks \<longrightarrow>
           ToolResult j [Text (input_description inp')] (Some (input_status inp' = ''failed''))
             \<in> set results) \<and>
        (messagesCreate env USER results = None \<and> tasksUpdate env completedUpdate = None \<and>
         tasksUpdate env needsHelpUpdate = None \<longrightarrow>
           (\<exists>w2. dispatch env tid task blocks w = (None, w2) \<and>
              trace w2 = trace w1 @
                (if results = [] then [] else [MessagesCreate tid USER results]) @
                (case setBlock of
                   Some (ToolUse j n inp') \<Rightarrow>
                     if input_status inp' = ''completed'' then
                       [TasksUpdate tid
                          \<lparr>upd_status = COMPLETED, upd_error = None, upd_completedAt = True\<rparr>]
                     else if input_status inp' = ''needs_help'' then
                       [TasksUpdate tid
                          \<lparr>upd_status = NEEDS_HELP, upd_error = None, upd_completedAt = False\<rparr>]
                     else []
                 | _ \<Rightarrow> []) @
                (if isProcessing w1 then [SetImmediate tid] else []))))"
proof (intro conjI impI)
  show "sweep env tid task (ToolUse i ''set_task_status'' inp # rest) results0 setBlock0 w0 =
       sweep env tid task rest
         (results0 @
            [ToolResult i [Text (input_description inp)] (Some (input_status inp = ''failed''))])
         (Some (ToolUse i ''set_task_status'' inp)) w0"
    by (rule sweep_set_task_status)
  show "set (taskUpdates (trace w1)) \<subseteq> set (taskUpdates (trace w)) \<union> {degradedUpdate}"
    by (rule sweep_updates [OF assms])
next
  assume "out = Continue"
  with assms have c: "sweep env tid task blocks [] None w = (Continue, results, setBlock, w1)"
    by simp
  note sc = sweep_continue [OF c]
  show "taskUpdates (trace w1) = taskUpdates (trace w)"
    using sc by blast
  show "setBlock = (case filter isSetTaskStatusToolUseBlock blocks of
                      [] \<Rightarrow> None | bs \<Rightarrow> Some (last bs))"
    using sc by blast
  show "\<forall>j inp'. ToolUse j ''set_task_status'' inp' \<in> set blocks \<longrightarrow>
           ToolResult j [Text (input_description inp')] (Some (input_status inp' = ''failed''))
             \<in> set results"
    using sc by blast
  assume w: "messagesCreate env USER results = None \<and> tasksUpdate env completedUpdate = None \<and>
         tasksUpdate env needsHelpUpdate = None"
  then have ok: "\<forall>u. statusUpdateOf setBlock = Some u \<longrightarrow> tasksUpdate env u = None"
    by (auto simp: statusUpdateOf_def split: option.splits MessageContentBlock.splits if_splits)
  have st: "(case statusUpdateOf setBlock of Some u \<Rightarrow> [TasksUpdate tid u] | None \<Rightarrow> []) =
     (case setBlock of
        Some (ToolUse j n inp') \<Rightarrow>
          if input_status inp' = ''completed'' then
            [TasksUpdate tid \<lparr>upd_status = COMPLETED, upd_error = None, upd_completedAt = True\<rparr>]
          else if input_status inp' = ''needs_help'' then
            [TasksUpdate tid \<lparr>upd_status = NEEDS_HELP, upd_error = None, upd_completedAt = False\<rparr>]
          else []
      | _ \<Rightarrow> [])"
    by (simp add: statusUpdateOf_def completedUpdate_def needsHelpUpdate_def
        split: option.splits MessageContentBlock.splits)
  from dispatch_continue [OF c _ ok] w st
  show "\<exists>w2. dispatch env tid task blocks w = (None, w2) \<and>
              trace w2 = trace w1 @
                (if results = [] then [] else [MessagesCreate tid USER results]) @
                (case setBlock of
                   Some (ToolUse j n inp') \<Rightarrow>
                     if input_status inp' = ''completed'' then
                       [TasksUpdate tid
                          \<lparr>upd_status = COMPLETED, upd_error = None, upd_completedAt = True\<rparr>]
                     else if input_status inp' = ''needs_help'' then
                       [TasksUpdate tid
                          \<lparr>upd_status = NEEDS_HELP, upd_error = None, upd_completedAt = False\<rparr>]
                     else []
                 | _ \<Rightarrow> []) @
                (if isProcessing w1 then [SetImmediate tid] else [])"
    by simp
qed

theorem set_task_status_deferred_witness:
  "sweep (sampleEnv gptTask \<lparr>contentBlocks = [], totalTokens = 0\<rparr>) ''t'' gptTask
      [Text ''finished'', setStatus ''completed'' ''done''] [] None processingT =
     (Continue, [ToolResult ''u2'' [Text ''done''] (Some False)],
      Some (setStatus ''completed'' ''done''), processingT) \<and>
   fst (dispatch (sampleEnv gptTask \<lparr>contentBlocks = [], totalTokens = 0\<rparr>) ''t'' gptTask
      [Text ''finished'', setStatus ''completed'' ''done''] processingT) = None \<and>
   trace (snd (dispatch (sampleEnv gptTask \<lparr>contentBlocks = [], totalTokens = 0\<rparr>) ''t'' gptTask
      [Text ''finished'', setStatus ''completed'' ''done''] processingT)) =
     [MessagesCreate ''t'' USER [ToolResult ''u2'' [Text ''done''] (Some False)],
      TasksUpdate ''t'' \<lparr>upd_status = COMPLETED, upd_error = None, upd_completedAt = True\<rparr>,
      SetImmediate ''t'']"
  using set_task_status_deferred
    [of "sampleEnv gptTask \<lparr>contentBlocks = [], totalTokens = 0\<rparr>" "''t''" gptTask
      "[Text ''finished'', setStatus ''completed'' ''done'']" processingT Continue
      "[ToolResult ''u2'' [Text ''done''] (Some False)]" "Some (setStatus ''completed'' ''done'')"
      processingT "''u2''" "sampleInput\<lparr>input_status := ''completed'', input_description := ''done''\<rparr>"
      "[]" "[]" None processingT]
  by (auto simp: sampleEnv_def setStatus_def sampleInput_def processingT_def initial_def
      computerStep_def createTaskStep_def setTaskStatusStep_def startsWith_def)

section \<open>The ids attached to a summary\<close>

lemma noAttach_simps [simp]:
  "noAttach []" "noAttach (e # es) = (attachedIds e = None \<and> noAttach es)"
  "noAttach (xs @ ys) = (noAttach xs \<and> noAttach ys)"
  by (auto simp: noAttach_def)

lemma noAttach_notin: "noAttach new \<Longrightarrow> AttachSummary t s ids \<notin> set new"
  by (auto simp: noAttach_def)

lemma summarize_new:
  "\<exists>new. trace (summarize env tid service messages m r w) = trace w @ new \<and>
     (\<forall>t s ids. AttachSummary t s ids \<in> set new \<longrightarrow> ids = map message_id messages)"
  by (auto simp: summarize_def callGenerateMessage_def call_def Let_def
      split: sum.splits prod.splits)

lemma computerStep_new:
  "computerStep env tid b results w = (out, results1, w1) \<Longrightarrow>
     \<exists>new. trace w1 = trace w @ new \<and> noAttach new"
  by (auto simp: computerStep_def Let_def call_def clearProcessing_def
      split: if_splits sum.splits option.splits)

lemma createTaskStep_new:
  "createTaskStep env task b results w = (out, results1, w1) \<Longrightarrow>
     \<exists>new. trace w1 = trace w @ new \<and> noAttach new"
  by (auto simp: createTaskStep_def Let_def call_def
      split: if_splits option.splits MessageContentBlock.splits)

lemma sweep_new:
  "sweep env tid task blocks results setBlock w = (out, results', setBlock', w') \<Longrightarrow>
     \<exists>new. trace w' = trace w @ new \<and> noAttach new"
proof (induction blocks arbitrary: results setBlock w)
  case Nil
  then show ?case by simp
next
  case (Cons b blocks)
  obtain o1 r1 w1 where c: "computerStep env tid b results w = (o1, r1, w1)"
    by (cases "computerStep env tid b results w") auto
  obtain o2 r2 w2 where t: "createTaskStep env task b r1 w1 = (o2, r2, w2)"
    by (cases "createTaskStep env task b r1 w1") auto
  obtain r3 s3 where s: "setTaskStatusStep b r2 setBlock = (r3, s3)"
    by (cases "setTaskStatusStep b r2 setBlock") auto
  from computerStep_new [OF c] obtain n1 where n1: "trace w1 = trace w @ n1" "noAttach n1"
    by blast
  from createTaskStep_new [OF t] obtain n2 where n2: "trace w2 = trace w1 @ n2" "noAttach n2"
    by blast
  show ?case
  proof (cases "o1 = Continue \<and> o2 = Continue")
    case True
    then have "sweep env tid task blocks r3 s3 w2 = (out, results', setBlock', w')"
      using Cons.prems c t s by simp
    from Cons.IH [OF this] obtain n3 where "trace w' = trace w2 @ n3" "noAttach n3"
      by blast
    with n1 n2 have "trace w' = trace w @ (n1 @ n2 @ n3) \<and> noAttach (n1 @ n2 @ n3)"
      by simp
    then show ?thesis by blast
  next
    case False
    then have "w' = w1 \<or> w' = w2"
      using Cons.prems c t by (cases o1; cases o2) auto
    then show ?thesis
    proof
      assume "w' = w1"
      with n1 show ?thesis by blast
    next
      assume "w' = w2"
      with n1 n2 have "trace w' = trace w @ (n1 @ n2) \<and> noAttach (n1 @ n2)" by simp
      then show ?thesis by blast
    qed
  qed
qed

lemma applyStatus_new:
  "\<exists>new. trace (snd (applyStatus env tid setBlock w)) = trace w @ new \<and> noAttach new"
  by (auto simp: applyStatus_def awaitUnit_def scheduleNext_def call_def split: option.splits)

lemma afterSweep_new:
  "\<exists>new. trace (snd (afterSweep env tid results setBlock w)) = trace w @ new \<and> noAttach new"
proof (cases "results \<noteq> [] \<and> messagesCreate env USER results = None")
  case True
  from applyStatus_new [of env tid setBlock "call (MessagesCreate tid USER results) w"]
  obtain n where "trace (snd (applyStatus env tid setBlock (call (MessagesCreate tid USER results) w))) =
      trace w @ (MessagesCreate tid USER results # n)" "noAttach n"
    by (auto simp: call_def)
  then have "trace (snd (afterSweep env tid results setBlock w)) =
      trace w @ (MessagesCreate tid USER results # n) \<and> noAttach (MessagesCreate tid USER results # n)"
    using True by (simp add: afterSweep_def awaitUnit_def)
  then show ?thesis by blast
next
  case False
  then show ?thesis
    using applyStatus_new [of env tid setBlock w]
    by (auto simp: afterSweep_def awaitUnit_def call_def split: option.splits)
qed

lemma dispatch_new:
  "\<exists>new. trace (snd (dispatch env tid task blocks w)) = trace w @ new \<and> noAttach new"
proof -
  obtain out results setBlock w1 where s: "sweep env tid task blocks [] None w = (out, results, setBlock, w1)"
    by (cases "sweep env tid task blocks [] None w") auto
  from sweep_new [OF s] obtain n1 where n1: "trace w1 = trace w @ n1" "noAttach n1" by blast
  show ?thesis
  proof (cases out)
    case Continue
    from afterSweep_new [of env tid results setBlock w1]
    obtain n2 where "trace (snd (afterSweep env tid results setBlock w1)) = trace w1 @ n2" "noAttach n2"
      by blast
    with n1 Continue s have "trace (snd (dispatch env tid task blocks w)) = trace w @ (n1 @ n2) \<and>
        noAttach (n1 @ n2)"
      by (simp add: dispatch_def)
    then show ?thesis by blast
  next
    case Returned
    with n1 s show ?thesis by (auto simp: dispatch_def)
  next
    case (Threw e)
    with n1 s show ?thesis by (auto simp: dispatch_def)
  qed
qed

lemma afterResponse_new:
  "\<exists>new. trace (snd (afterResponse env tid task service messages m r w)) = trace w @ new \<and>
     (\<forall>t s ids. AttachSummary t s ids \<in> set new \<longrightarrow> ids = map message_id messages)"
proof (cases "contentBlocks r \<noteq> [] \<and> messagesCreate env ASSISTANT (contentBlocks r) = None")
  case True
  let ?w1 = "call (MessagesCreate tid ASSISTANT (contentBlocks r)) w"
  from summarize_new [of env tid service messages m r ?w1]
  obtain n1 where n1: "trace (summarize env tid service messages m r ?w1) = trace ?w1 @ n1"
      "\<forall>t s ids. AttachSummary t s ids \<in> set n1 \<longrightarrow> ids = map message_id messages"
    by blast
  from dispatch_new [of env tid task "contentBlocks r" "summarize env tid service messages m r ?w1"]
  obtain n2 where n2: "trace (snd (dispatch env tid task (contentBlocks r)
        (summarize env tid service messages m r ?w1))) =
      trace (summarize env tid service messages m r ?w1) @ n2" "noAttach n2"
    by blast
  have "trace (snd (afterResponse env tid task service messages m r w)) =
      trace w @ (MessagesCreate tid ASSISTANT (contentBlocks r) # n1 @ n2)"
    using True n1 n2 by (simp add: afterResponse_def awaitUnit_def Let_def call_def)
  moreover have "\<forall>t s ids. AttachSummary t s ids \<in> set (MessagesCreate tid ASSISTANT (contentBlocks r) # n1 @ n2)
      \<longrightarrow> ids = map message_id messages"
    using n1(2) noAttach_notin [OF n2(2)] by auto
  ultimately show ?thesis by blast
next
  case False
  then show ?thesis
    by (auto simp: afterResponse_def awaitUnit_def Let_def call_def stopAfter_def clearProcessing_def
        split: option.splits)
qed

lemma consultModel_new:
  "\<exists>new. trace (snd (consultModel env tid task messages w)) = trace w @ new \<and>
     (\<forall>t s ids. AttachSummary t s ids \<in> set new \<longrightarrow>
        ids = map message_id messages \<and>
        GenerateMessage (provider (resolveModel (model task))) AGENT_SYSTEM_PROMPT messages
          (name (resolveModel (model task))) True \<in> set new)"
proof -
  let ?m = "resolveModel (model task)"
  let ?g = "GenerateMessage (provider ?m) AGENT_SYSTEM_PROMPT messages (name ?m) True"
  show ?thesis
  proof (cases "services (provider ?m) = Registered \<and>
      (\<exists>r. generateMessage env (provider ?m) AGENT_SYSTEM_PROMPT messages (name ?m) True = Inr r)")
    case True
    then obtain r where r: "generateMessage env (provider ?m) AGENT_SYSTEM_PROMPT messages (name ?m) True = Inr r"
      by blast
    from afterResponse_new [of env tid task Registered messages ?m r "call ?g w"]
    obtain n where n: "trace (snd (afterResponse env tid task Registered messages ?m r (call ?g w))) =
        trace (call ?g w) @ n"
      "\<forall>t s ids. AttachSummary t s ids \<in> set n \<longrightarrow> ids = map message_id messages"
      by blast
    have "trace (snd (consultModel env tid task messages w)) = trace w @ (?g # n)"
      using True r n(1) by (simp add: consultModel_def callGenerateMessage_def Let_def call_def)
    moreover have "\<forall>t s ids. AttachSummary t s ids \<in> set (?g # n) \<longrightarrow>
        ids = map message_id messages \<and> ?g \<in> set (?g # n)"
      using n(2) by auto
    ultimately show ?thesis by blast
  next
    case False
    then show ?thesis
      by (auto simp: consultModel_def callGenerateMessage_def Let_def call_def awaitUnit_def
          stopAfter_def clearProcessing_def split: option.splits sum.splits)
  qed
qed


lemma tryIteration_new:
  "\<exists>new. trace (snd (tryIteration env tid w)) = trace w @ new \<and>
     (\<forall>t s ids. AttachSummary t s ids \<in> set new \<longrightarrow>
        (\<exists>task ls ms. findById env = Inr task \<and> findLatest env = Inr ls \<and>
           findUnsummarized env = Inr ms \<and>
           ids = map message_id
                   (assembleMessages tid ls ms (computerToolsDisabled w tid = Some True)) \<and>
           GenerateMessage (provider (resolveModel (model task))) AGENT_SYSTEM_PROMPT
             (assembleMessages tid ls ms (computerToolsDisabled w tid = Some True))
             (name (resolveModel (model task))) True \<in> set new))"
proof (cases "\<exists>task ls ms. findById env = Inr task \<and> status task = RUNNING \<and>
    findLatest env = Inr ls \<and> findUnsummarized env = Inr ms")
  case True
  then obtain task ls ms where e: "findById env = Inr task" "status task = RUNNING"
      "findLatest env = Inr ls" "findUnsummarized env = Inr ms"
    by blast
  let ?w1 = "w\<lparr>abortController := Some (AbortController False)\<rparr>"
  let ?msgs = "assembleMessages tid ls ms (computerToolsDisabled w tid = Some True)"
  have t: "tryIteration env tid w = consultModel env tid task ?msgs ?w1"
    using e by (simp add: tryIteration_def awaitRead_def Let_def)
  from consultModel_new [of env tid task ?msgs ?w1] e t show ?thesis
    by auto
next
  case False
  then have "trace (snd (tryIteration env tid w)) = trace w @ []"
    by (auto simp: tryIteration_def awaitRead_def Let_def stopAfter_def clearProcessing_def
        split: sum.splits)
  then show ?thesis by (metis empty_iff list.set(1))
qed

lemma catchBlock_new:
  "\<exists>new. trace (catchBlock env tid err w) = trace w @ new \<and> noAttach new"
  by (auto simp: catchBlock_def call_def finishFailed_def Let_def split: option.splits)

lemma assembled_ids:
  "map message_id (assembleMessages tid ls ms disabled) =
     (case ls of Some s \<Rightarrow> [[]] | None \<Rightarrow> []) @ map message_id ms @
     (if disabled then [[]] else [])"
  by (simp add: assembleMessages_def syntheticMessage_def split: option.splits)

text \<open>
  C10: the effects that one iteration adds to the trace. Whenever \<open>attachSummary\<close> is
  among them, the task, the summary and the unsummarized messages were read, the first
  provider call of the iteration was made with the message list assembled from them
  (the summary message, if there is a summary; the unsummarized messages; the advisory
  message, if desktop tools are disabled for the task), and the id list handed to
  \<open>attachSummary\<close> is the list of the ids of exactly those messages: an empty id for
  each synthetic message, around the ids of the unsummarized messages. The list is
  fixed by what was read before the assistant message is written, so an id that is not
  empty and that no message read by \<open>findUnsummarized\<close> has (as the id the store gives
  to the new assistant message) is not in it.
\<close>

theorem attachSummary_ids:
  "\<exists>new. trace (runIteration env tid w) = trace w @ new \<and>
     (\<forall>t s ids. AttachSummary t s ids \<in> set new \<longrightarrow>
        (\<exists>task ls ms. findById env = Inr task \<and> findLatest env = Inr ls \<and>
           findUnsummarized env = Inr ms \<and>
           GenerateMessage (provider (resolveModel (model task))) AGENT_SYSTEM_PROMPT
             (assembleMessages tid ls ms (computerToolsDisabled w tid = Some True))
             (name (resolveModel (model task))) True \<in> set new \<and>
           ids = map message_id
                   (assembleMessages tid ls ms (computerToolsDisabled w tid = Some True)) \<and>
           ids = (case ls of Some s \<Rightarrow> [[]] | None \<Rightarrow> []) @ map message_id ms @
                 (if computerToolsDisabled w tid = Some True then [[]] else []) \<and>
           (\<forall>aid. aid \<noteq> [] \<and> aid \<notin> message_id ` set ms \<longrightarrow> aid \<notin> set ids)))"
proof (cases "isProcessing w")
  case False
  then have "trace (runIteration env tid w) = trace w @ []"
    by (simp add: runIteration_def)
  then show ?thesis by (metis empty_iff list.set(1))
next
  case True
  from tryIteration_new [of env tid w]
  obtain n1 where n1: "trace (snd (tryIteration env tid w)) = trace w @ n1"
    "\<forall>t s ids. AttachSummary t s ids \<in> set n1 \<longrightarrow>
        (\<exists>task ls ms. findById env = Inr task \<and> findLatest env = Inr ls \<and>
           findUnsummarized env = Inr ms \<and>
           ids = map message_id
                   (assembleMessages tid ls ms (computerToolsDisabled w tid = Some True)) \<and>
           GenerateMessage (provider (resolveModel (model task))) AGENT_SYSTEM_PROMPT
             (assembleMessages tid ls ms (computerToolsDisabled w tid = Some True))
             (name (resolveModel (model task))) True \<in> set n1)"
    by blast
  obtain r w1 where tr: "tryIteration env tid w = (r, w1)"
    by (cases "tryIteration env tid w") auto
  obtain n2 where n2: "trace (runIteration env tid w) = trace w1 @ n2" "noAttach n2"
  proof (cases r)
    case None
    with tr True have "trace (runIteration env tid w) = trace w1 @ []" "noAttach []"
      by (simp_all add: runIteration_def)
    then show ?thesis by (rule that)
  next
    case (Some err)
    with tr True have "runIteration env tid w = catchBlock env tid err w1"
      by (simp add: runIteration_def)
    with catchBlock_new [of env tid err w1] show ?thesis
      using that by auto
  qed
  have tot: "trace (runIteration env tid w) = trace w @ (n1 @ n2)"
    using n1(1) n2(1) tr by simp
  have "\<forall>t s ids. AttachSummary t s ids \<in> set (n1 @ n2) \<longrightarrow>
        (\<exists>task ls ms. findById env = Inr task \<and> findLatest env = Inr ls \<and>
           findUnsummarized env = Inr ms \<and>
           GenerateMessage (provider (resolveModel (model task))) AGENT_SYSTEM_PROMPT
             (assembleMessages tid ls ms (computerToolsDisabled w tid = Some True))
             (name (resolveModel (model task))) True \<in> set (n1 @ n2) \<and>
           ids = map message_id
                   (assembleMessages tid ls ms (computerToolsDisabled w tid = Some True)) \<and>
           ids = (case ls of Some s \<Rightarrow> [[]] | None \<Rightarrow> []) @ map message_id ms @
                 (if computerToolsDisabled w tid = Some True then [[]] else []) \<and>
           (\<forall>aid. aid \<noteq> [] \<and> aid \<notin> message_id ` set ms \<longrightarrow> aid \<notin> set ids))"
  proof (intro allI impI)
    fix t s ids
    assume "AttachSummary t s ids \<in> set (n1 @ n2)"
    with noAttach_notin [OF n2(2)] have "AttachSummary t s ids \<in> set n1" by auto
    with n1(2) obtain task ls ms where f: "findById env = Inr task" "findLatest env = Inr ls"
        "findUnsummarized env = Inr ms"
        "ids = map message_id
                   (assembleMessages tid ls ms (computerToolsDisabled w tid = Some True))"
        "GenerateMessage (provider (resolveModel (model task))) AGENT_SYSTEM_PROMPT
             (assembleMessages tid ls ms (computerToolsDisabled w tid = Some True))
             (name (resolveModel (model task))) True \<in> set n1"
      by blast
    have ids: "ids = (case ls of Some s \<Rightarrow> [[]] | None \<Rightarrow> []) @ map message_id ms @
                 (if computerToolsDisabled w tid = Some True then [[]] else [])"
      using f(4) by (simp only: assembled_ids)
    have fresh: "\<forall>aid. aid \<noteq> [] \<and> aid \<notin> message_id ` set ms \<longrightarrow> aid \<notin> set ids"
      unfolding ids by (auto split: option.splits)
    from f ids fresh show "\<exists>task ls ms. findById env = Inr task \<and> findLatest env = Inr ls \<and>
           findUnsummarized env = Inr ms \<and>
           GenerateMessage (provider (resolveModel (model task))) AGENT_SYSTEM_PROMPT
             (assembleMessages tid ls ms (computerToolsDisabled w tid = Some True))
             (name (resolveModel (model task))) True \<in> set (n1 @ n2) \<and>
           ids = map message_id
                   (assembleMessages tid ls ms (computerToolsDisabled w tid = Some True)) \<and>
           ids = (case ls of Some s \<Rightarrow> [[]] | None \<Rightarrow> []) @ map message_id ms @
                 (if computerToolsDisabled w tid = Some True then [[]] else []) \<and>
           (\<forall>aid. aid \<noteq> [] \<and> aid \<notin> message_id ` set ms \<longrightarrow> aid \<notin> set ids)"
      by auto
  qed
  with tot show ?thesis by blast
qed

lemma summarizing_trace:
  "trace (runIteration summarizingEnv ''t'' degradedT) =
     [GenerateMessage ''openai'' AGENT_SYSTEM_PROMPT
        [syntheticMessage ''t'' ''so far'', earlierMessage, syntheticMessage ''t'' advisoryText]
        ''gpt-4.1'' True,
      MessagesCreate ''t'' ASSISTANT [Text ''on it''],
      GenerateMessage ''openai'' SUMMARIZATION_SYSTEM_PROMPT
        [syntheticMessage ''t'' ''so far'', earlierMessage, syntheticMessage ''t'' advisoryText,
         syntheticMessage ''t'' summarizeInstruction]
        ''gpt-4.1'' False,
      SummariesCreate ''t'' ''on it'',
      AttachSummary ''t'' ''s1'' [[], ''m1'', []],
      SetImmediate ''t'']"
  by (simp add: summarizingEnv_def sampleEnv_def gptTask_def runningTask_def degradedT_def
      processingT_def initial_def iteration_defs assembleMessages_def resolveModel_def
      inferProvider_def startsWith_def services_def knownProviders_def summarize_def
      shouldSummarize_def effectiveContextWindow_def summaryContent_def List.map_filter_simps
      dispatch_def afterSweep_def applyStatus_def statusUpdateOf_def scheduleNext_def
      computerStep_def createTaskStep_def setTaskStatusStep_def earlierMessage_def Let_def
      syntheticMessage_def)

theorem attachSummary_ids_witness:
  "AttachSummary ''t'' ''s1'' [[], ''m1'', []] \<in> set (trace (runIteration summarizingEnv ''t'' degradedT)) \<and>
   findUnsummarized summarizingEnv = Inr [earlierMessage] \<and>
   ''a1'' \<notin> message_id ` set [earlierMessage] \<and> ''a1'' \<notin> set [[], ''m1'', []]"
  using attachSummary_ids [of summarizingEnv "''t''" degradedT] summarizing_trace
  by (simp add: summarizingEnv_def earlierMessage_def)

section \<open>The singleton state\<close>

lemma computerStep_inv:
  "computerStep env tid b results w = (out, results1, w1) \<Longrightarrow> processingInvariant w \<Longrightarrow>
     processingInvariant w1"
  by (auto simp: computerStep_def Let_def call_def clearProcessing_def processingInvariant_def
      split: if_splits sum.splits option.splits)

lemma createTaskStep_inv:
  "createTaskStep env task b results w = (out, results1, w1) \<Longrightarrow> processingInvariant w \<Longrightarrow>
     processingInvariant w1"
  by (auto simp: createTaskStep_def Let_def call_def processingInvariant_def
      split: if_splits option.splits MessageContentBlock.splits)

lemma sweep_inv:
  "sweep env tid task blocks results setBlock w = (out, results', setBlock', w') \<Longrightarrow>
     processingInvariant w \<Longrightarrow> processingInvariant w'"
proof (induction blocks arbitrary: results setBlock w)
  case Nil
  then show ?case by simp
next
  case (Cons b blocks)
  obtain o1 r1 w1 where c: "computerStep env tid b results w = (o1, r1, w1)"
    by (cases "computerStep env tid b results w") auto
  obtain o2 r2 w2 where t: "createTaskStep env task b r1 w1 = (o2, r2, w2)"
    by (cases "createTaskStep env task b r1 w1") auto
  obtain r3 s3 where s: "setTaskStatusStep b r2 setBlock = (r3, s3)"
    by (cases "setTaskStatusStep b r2 setBlock") auto
  have i1: "processingInvariant w1" using computerStep_inv [OF c Cons.prems(2)] .
  have i2: "processingInvariant w2" using createTaskStep_inv [OF t i1] .
  show ?case
  proof (cases "o1 = Continue \<and> o2 = Continue")
    case True
    then have "sweep env tid task blocks r3 s3 w2 = (out, results', setBlock', w')"
      using Cons.prems(1) c t s by simp
    from Cons.IH [OF this i2] show ?thesis .
  next
    case False
    then have "w' = w1 \<or> w' = w2"
      using Cons.prems(1) c t by (cases o1; cases o2) auto
    with i1 i2 show ?thesis by auto
  qed
qed

lemma call_inv: "processingInvariant (call eff w) = processingInvariant w"
  by (simp add: call_def processingInvariant_def)

lemma clearProcessing_inv: "processingInvariant (clearProcessing w)"
  by (simp add: clearProcessing_def processingInvariant_def)

lemma applyStatus_inv:
  "processingInvariant w \<Longrightarrow> processingInvariant (snd (applyStatus env tid setBlock w))"
  by (auto simp: applyStatus_def awaitUnit_def scheduleNext_def call_inv split: option.splits)

lemma afterSweep_inv:
  "processingInvariant w \<Longrightarrow> processingInvariant (snd (afterSweep env tid results setBlock w))"
  by (auto simp: afterSweep_def awaitUnit_def call_inv applyStatus_inv split: option.splits)

lemma dispatch_inv:
  assumes "processingInvariant w"
  shows "processingInvariant (snd (dispatch env tid task blocks w))"
proof -
  obtain out results setBlock w1 where s: "sweep env tid task blocks [] None w = (out, results, setBlock, w1)"
    by (cases "sweep env tid task blocks [] None w") auto
  from sweep_inv [OF s assms] have "processingInvariant w1" .
  then show ?thesis
    using s by (cases out) (auto simp: dispatch_def afterSweep_inv)
qed

lemma summarize_inv:
  "processingInvariant (summarize env tid service messages m r w) = processingInvariant w"
  by (auto simp: summarize_def callGenerateMessage_def call_def Let_def processingInvariant_def
      split: sum.splits prod.splits)

lemma afterResponse_inv:
  "processingInvariant w \<Longrightarrow>
     processingInvariant (snd (afterResponse env tid task service messages m r w))"
  by (auto simp: afterResponse_def awaitUnit_def Let_def stopAfter_def clearProcessing_inv
      dispatch_inv summarize_inv call_inv split: option.splits)

lemma consultModel_inv:
  "processingInvariant w \<Longrightarrow> processingInvariant (snd (consultModel env tid task messages w))"
  by (auto simp: consultModel_def awaitUnit_def Let_def stopAfter_def clearProcessing_inv
      callGenerateMessage_def afterResponse_inv call_inv split: option.splits sum.splits)

lemma refresh_inv:
  "processingInvariant w \<Longrightarrow> processingInvariant (w\<lparr>abortController := Some c\<rparr>)"
  by (simp add: processingInvariant_def)

lemma tryIteration_inv:
  "processingInvariant w \<Longrightarrow> processingInvariant (snd (tryIteration env tid w))"
  by (auto simp: tryIteration_def awaitRead_def Let_def stopAfter_def clearProcessing_inv
      consultModel_inv refresh_inv split: sum.splits)

lemma catchBlock_inv:
  "processingInvariant w \<Longrightarrow> processingInvariant (catchBlock env tid err w)"
  by (auto simp: catchBlock_def call_def finishFailed_def Let_def processingInvariant_def
      split: option.splits)

lemma runIteration_inv:
  assumes "processingInvariant w"
  shows "processingInvariant (runIteration env tid w)"
proof -
  obtain r w1 where t: "tryIteration env tid w = (r, w1)"
    by (cases "tryIteration env tid w") auto
  from tryIteration_inv [OF assms, of env tid] t have "processingInvariant w1" by simp
  then show ?thesis
    using assms t by (cases r) (auto simp: runIteration_def catchBlock_inv)
qed

lemma stopProcessing_inv:
  "processingInvariant w \<Longrightarrow> processingInvariant (stopProcessing env w)"
  by (auto simp: stopProcessing_def Let_def call_def abort_def clearProcessing_def
      processingInvariant_def split: option.splits)

lemma step_inv: "processingInvariant w \<Longrightarrow> processingInvariant (step ev w)"
proof (cases ev)
  case (ProcessTask env tid)
  assume i: "processingInvariant w"
  have "processingInvariant (w\<lparr>isProcessing := True, currentTaskId := Some tid,
             abortController := Some (AbortController False)\<rparr>)"
    by (simp add: processingInvariant_def)
  from runIteration_inv [OF this] i ProcessTask show ?thesis
    by (simp add: processTask_def)
next
  case (Iteration env tid)
  assume "processingInvariant w"
  with Iteration show ?thesis by (simp add: runIteration_inv)
next
  case (RetryTimer env tid)
  assume "processingInvariant w"
  with RetryTimer show ?thesis by (simp add: retryCallback_def runIteration_inv)
next
  case (Takeover tid)
  assume "processingInvariant w"
  with Takeover show ?thesis
    by (auto simp: handleTaskTakeover_def call_def abort_def processingInvariant_def)
next
  case (Resume env tid)
  assume "processingInvariant w"
  with Resume show ?thesis
    by (simp add: handleTaskResume_def runIteration_inv refresh_inv)
next
  case (Cancel env tid)
  assume "processingInvariant w"
  with Cancel show ?thesis by (simp add: handleTaskCancel_def stopProcessing_inv)
next
  case (StopProcessing env)
  assume "processingInvariant w"
  with StopProcessing show ?thesis by (simp add: stopProcessing_inv)
qed

lemma fold_step_inv: "processingInvariant w \<Longrightarrow> processingInvariant (fold step evs w)"
  by (induction evs arbitrary: w) (simp_all add: step_inv)

text \<open>
  The handle is never taken away: an event leaves a processor that has one with one.
\<close>

lemma computerStep_handle:
  "computerStep env tid b results w = (out, results1, w1) \<Longrightarrow> hasHandle w \<Longrightarrow>
     hasHandle w1"
  by (auto simp: computerStep_def Let_def call_def clearProcessing_def hasHandle_def
      split: if_splits sum.splits option.splits)

lemma createTaskStep_handle:
  "createTaskStep env task b results w = (out, results1, w1) \<Longrightarrow> hasHandle w \<Longrightarrow>
     hasHandle w1"
  by (auto simp: createTaskStep_def Let_def call_def hasHandle_def
      split: if_splits option.splits MessageContentBlock.splits)

lemma sweep_handle:
  "sweep env tid task blocks results setBlock w = (out, results', setBlock', w') \<Longrightarrow>
     hasHandle w \<Longrightarrow> hasHandle w'"
proof (induction blocks arbitrary: results setBlock w)
  case Nil
  then show ?case by simp
next
  case (Cons b blocks)
  obtain o1 r1 w1 where c: "computerStep env tid b results w = (o1, r1, w1)"
    by (cases "computerStep env tid b results w") auto
  obtain o2 r2 w2 where t: "createTaskStep env task b r1 w1 = (o2, r2, w2)"
    by (cases "createTaskStep env task b r1 w1") auto
  obtain r3 s3 where s: "setTaskStatusStep b r2 setBlock = (r3, s3)"
    by (cases "setTaskStatusStep b r2 setBlock") auto
  have i1: "hasHandle w1" using computerStep_handle [OF c Cons.prems(2)] .
  have i2: "hasHandle w2" using createTaskStep_handle [OF t i1] .
  show ?case
  proof (cases "o1 = Continue \<and> o2 = Continue")
    case True
    then have "sweep env tid task blocks r3 s3 w2 = (out, results', setBlock', w')"
      using Cons.prems(1) c t s by simp
    from Cons.IH [OF this i2] show ?thesis .
  next
    case False
    then have "w' = w1 \<or> w' = w2"
      using Cons.prems(1) c t by (cases o1; cases o2) auto
    with i1 i2 show ?thesis by auto
  qed
qed

lemma call_handle: "hasHandle (call eff w) = hasHandle w"
  by (simp add: call_def hasHandle_def)

lemma clearProcessing_handle: "hasHandle (clearProcessing w) = hasHandle w"
  by (simp add: clearProcessing_def hasHandle_def)

lemma applyStatus_handle:
  "hasHandle w \<Longrightarrow> hasHandle (snd (applyStatus env tid setBlock w))"
  by (auto simp: applyStatus_def awaitUnit_def scheduleNext_def call_handle split: option.splits)

lemma afterSweep_handle:
  "hasHandle w \<Longrightarrow> hasHandle (snd (afterSweep env tid results setBlock w))"
  by (auto simp: afterSweep_def awaitUnit_def call_handle applyStatus_handle split: option.splits)

lemma dispatch_handle:
  assumes "hasHandle w"
  shows "hasHandle (snd (dispatch env tid task blocks w))"
proof -
  obtain out results setBlock w1 where s: "sweep env tid task blocks [] None w = (out, results, setBlock, w1)"
    by (cases "sweep env tid task blocks [] None w") auto
  from sweep_handle [OF s assms] have "hasHandle w1" .
  then show ?thesis
    using s by (cases out) (auto simp: dispatch_def afterSweep_handle)
qed

lemma summarize_handle:
  "hasHandle (summarize env tid service messages m r w) = hasHandle w"
  by (auto simp: summarize_def callGenerateMessage_def call_def Let_def hasHandle_def
      split: sum.splits prod.splits)

lemma afterResponse_handle:
  "hasHandle w \<Longrightarrow>
     hasHandle (snd (afterResponse env tid task service messages m r w))"
  by (auto simp: afterResponse_def awaitUnit_def Let_def stopAfter_def clearProcessing_handle
      dispatch_handle summarize_handle call_handle split: option.splits)

lemma consultModel_handle:
  "hasHandle w \<Longrightarrow> hasHandle (snd (consultModel env tid task messages w))"
  by (auto simp: consultModel_def awaitUnit_def Let_def stopAfter_def clearProcessing_handle
      callGenerateMessage_def afterResponse_handle call_handle split: option.splits sum.splits)

lemma refresh_handle:
  "hasHandle (w\<lparr>abortController := Some c\<rparr>)"
  by (simp add: hasHandle_def)

lemma tryIteration_handle:
  "hasHandle w \<Longrightarrow> hasHandle (snd (tryIteration env tid w))"
  by (auto simp: tryIteration_def awaitRead_def Let_def stopAfter_def clearProcessing_handle
      consultModel_handle refresh_handle split: sum.splits)

lemma catchBlock_handle:
  "hasHandle w \<Longrightarrow> hasHandle (catchBlock env tid err w)"
  by (auto simp: catchBlock_def call_def finishFailed_def Let_def hasHandle_def
      split: option.splits)

lemma runIteration_handle:
  assumes "hasHandle w"
  shows "hasHandle (runIteration env tid w)"
proof -
  obtain r w1 where t: "tryIteration env tid w = (r, w1)"
    by (cases "tryIteration env tid w") auto
  from tryIteration_handle [OF assms, of env tid] t have "hasHandle w1" by simp
  then show ?thesis
    using assms t by (cases r) (auto simp: runIteration_def catchBlock_handle)
qed

lemma stopProcessing_handle:
  "hasHandle w \<Longrightarrow> hasHandle (stopProcessing env w)"
  by (auto simp: stopProcessing_def Let_def call_def abort_def clearProcessing_def
      hasHandle_def split: option.splits)

lemma step_handle: "hasHandle w \<Longrightarrow> hasHandle (step ev w)"
proof (cases ev)
  case (ProcessTask env tid)
  assume i: "hasHandle w"
  have "hasHandle (w\<lparr>isProcessing := True, currentTaskId := Some tid,
             abortController := Some (AbortController False)\<rparr>)"
    by (simp add: hasHandle_def)
  from runIteration_handle [OF this] i ProcessTask show ?thesis
    by (simp add: processTask_def)
next
  case (Iteration env tid)
  assume "hasHandle w"
  with Iteration show ?thesis by (simp add: runIteration_handle)
next
  case (RetryTimer env tid)
  assume "hasHandle w"
  with RetryTimer show ?thesis by (simp add: retryCallback_def runIteration_handle)
next
  case (Takeover tid)
  assume "hasHandle w"
  with Takeover show ?thesis
    by (auto simp: handleTaskTakeover_def call_def abort_def hasHandle_def)
next
  case (Resume env tid)
  assume "hasHandle w"
  with Resume show ?thesis
    by (simp add: handleTaskResume_def runIteration_handle refresh_handle)
next
  case (Cancel env tid)
  assume "hasHandle w"
  with Cancel show ?thesis by (simp add: handleTaskCancel_def stopProcessing_handle)
next
  case (StopProcessing env)
  assume "hasHandle w"
  with StopProcessing show ?thesis by (simp add: stopProcessing_handle)
qed

text \<open>
  C4, amended: \<open>isProcessing\<close> holds exactly when \<open>currentTaskId\<close> is set, and a
  processing processor has a cancellation handle. Every iteration and every lifecycle
  operation (\<open>processTask\<close>, takeover, resume, cancel, \<open>stopProcessing\<close>, the retry
  timer) keeps this, so it holds after every run from the initial state. The handle is
  never reset: an idle processor may have one.
\<close>

theorem processing_invariant:
  "(processingInvariant w \<longrightarrow> processingInvariant (step ev w)) \<and>
   processingInvariant (run evs initial)"
proof
  show "processingInvariant w \<longrightarrow> processingInvariant (step ev w)"
    by (simp add: step_inv)
  have "processingInvariant initial"
    by (simp add: initial_def processingInvariant_def)
  then show "processingInvariant (run evs initial)"
    unfolding run_def by (rule fold_step_inv)
qed


lemma happy_run:
  "run [ProcessTask happyEnv ''t'', Cancel happyEnv ''t''] initial =
     initial\<lparr>abortController := Some (AbortController True),
       trace := [GenerateMessage ''openai'' AGENT_SYSTEM_PROMPT [] ''gpt-4.1'' True,
                 MessagesCreate ''t'' ASSISTANT [Text ''working on it''],
                 SetImmediate ''t'', InputCaptureStop]\<rparr>"
  by (simp add: run_def happyEnv_def sampleEnv_def gptTask_def runningTask_def
      processTask_def handleTaskCancel_def stopProcessing_def abort_def
      initial_def iteration_defs assembleMessages_def resolveModel_def
      inferProvider_def startsWith_def services_def knownProviders_def summarize_def
      shouldSummarize_def effectiveContextWindow_def
      dispatch_def afterSweep_def applyStatus_def statusUpdateOf_def scheduleNext_def
      computerStep_def createTaskStep_def setTaskStatusStep_def Let_def)

text \<open>
  C4, as stated: \<open>isProcessing\<close>, a set \<open>currentTaskId\<close> and a set cancellation handle
  are equivalent before and after every operation. After a task is started and then
  cancelled the processor is idle, and the handle is still there.
\<close>

theorem singleton_invariant_counterexample:
  "singletonInvariant initial \<and>
   \<not> singletonInvariant (run [ProcessTask happyEnv ''t'', Cancel happyEnv ''t''] initial)"
  by (simp add: happy_run) (simp add: singletonInvariant_def initial_def)

theorem processing_invariant_witness:
  "processingInvariant initial \<and>
   processingInvariant (step (ProcessTask happyEnv ''t'') initial) \<and>
   \<not> isProcessing (run [ProcessTask happyEnv ''t'', Cancel happyEnv ''t''] initial) \<and>
   currentTaskId (run [ProcessTask happyEnv ''t'', Cancel happyEnv ''t''] initial) = None"
  using processing_invariant [of initial "ProcessTask happyEnv ''t''"
      "[ProcessTask happyEnv ''t'', Cancel happyEnv ''t'']"]
  by (simp add: happy_run) (simp add: processingInvariant_def initial_def)

section \<open>Per-task ephemeral state\<close>

lemma ephemeralKept_refl [simp]: "ephemeralKept w w"
  by (simp add: ephemeralKept_def tablesKept_def)

lemma tablesKept_trans:
  assumes "tablesKept a b" and "tablesKept b c"
  shows "tablesKept a c"
proof -
  have "\<exists>m. computerToolFailures c t = Some m \<and> n \<le> m"
    if "computerToolFailures a t = Some n" for t n
  proof -
    from assms(1) that obtain k where k: "computerToolFailures b t = Some k" "n \<le> k"
      unfolding tablesKept_def by blast
    from assms(2) k(1) obtain m where "computerToolFailures c t = Some m" "k \<le> m"
      unfolding tablesKept_def by blast
    with k(2) show ?thesis by auto
  qed
  moreover have "computerToolsDisabled c t = computerToolsDisabled a t \<or>
      computerToolsDisabled c t = Some True" for t
    using assms unfolding tablesKept_def by metis
  ultimately show ?thesis unfolding tablesKept_def by blast
qed

lemma ephemeralKept_trans: "ephemeralKept a b \<Longrightarrow> ephemeralKept b c \<Longrightarrow> ephemeralKept a c"
  using tablesKept_trans [of a b c] by (simp add: ephemeralKept_def)

lemma ephemeralKept_call [simp]: "ephemeralKept w (call eff w')  = ephemeralKept w w'"
  by (simp add: ephemeralKept_def tablesKept_def call_def)

lemma ephemeralKept_clear [simp]: "ephemeralKept w (clearProcessing w') = ephemeralKept w w'"
  by (simp add: ephemeralKept_def tablesKept_def clearProcessing_def)

lemma computerStep_kept:
  "computerStep env tid b results w = (out, results1, w1) \<Longrightarrow> ephemeralKept w w1"
  by (auto simp: computerStep_def Let_def call_def clearProcessing_def ephemeralKept_def
      tablesKept_def split: if_splits sum.splits option.splits)

lemma createTaskStep_kept:
  "createTaskStep env task b results w = (out, results1, w1) \<Longrightarrow> ephemeralKept w w1"
  by (auto simp: createTaskStep_def Let_def
      split: if_splits option.splits MessageContentBlock.splits)

lemma sweep_kept:
  "sweep env tid task blocks results setBlock w = (out, results', setBlock', w') \<Longrightarrow>
     ephemeralKept w w'"
proof (induction blocks arbitrary: results setBlock w)
  case Nil
  then show ?case by simp
next
  case (Cons b blocks)
  obtain o1 r1 w1 where c: "computerStep env tid b results w = (o1, r1, w1)"
    by (cases "computerStep env tid b results w") auto
  obtain o2 r2 w2 where t: "createTaskStep env task b r1 w1 = (o2, r2, w2)"
    by (cases "createTaskStep env task b r1 w1") auto
  obtain r3 s3 where s: "setTaskStatusStep b r2 setBlock = (r3, s3)"
    by (cases "setTaskStatusStep b r2 setBlock") auto
  have k1: "ephemeralKept w w1" using computerStep_kept [OF c] .
  have k2: "ephemeralKept w w2" using ephemeralKept_trans [OF k1 createTaskStep_kept [OF t]] .
  show ?case
  proof (cases "o1 = Continue \<and> o2 = Continue")
    case True
    then have "sweep env tid task blocks r3 s3 w2 = (out, results', setBlock', w')"
      using Cons.prems(1) c t s by simp
    from ephemeralKept_trans [OF k2 Cons.IH [OF this]] show ?thesis .
  next
    case False
    then have "w' = w1 \<or> w' = w2"
      using Cons.prems(1) c t by (cases o1; cases o2) auto
    with k1 k2 show ?thesis by auto
  qed
qed

lemma applyStatus_kept: "ephemeralKept w (snd (applyStatus env tid setBlock w))"
  by (auto simp: applyStatus_def awaitUnit_def scheduleNext_def split: option.splits)

lemma afterSweep_kept: "ephemeralKept w (snd (afterSweep env tid results setBlock w))"
proof -
  have "ephemeralKept (call (MessagesCreate tid USER results) w)
      (snd (applyStatus env tid setBlock (call (MessagesCreate tid USER results) w)))"
    by (rule applyStatus_kept)
  then have "ephemeralKept w
      (snd (applyStatus env tid setBlock (call (MessagesCreate tid USER results) w)))"
    by (simp add: ephemeralKept_def tablesKept_def call_def)
  then show ?thesis
    by (auto simp: afterSweep_def awaitUnit_def applyStatus_kept split: option.splits)
qed

lemma dispatch_kept: "ephemeralKept w (snd (dispatch env tid task blocks w))"
proof -
  obtain out results setBlock w1 where s: "sweep env tid task blocks [] None w = (out, results, setBlock, w1)"
    by (cases "sweep env tid task blocks [] None w") auto
  note k = sweep_kept [OF s]
  show ?thesis
  proof (cases out)
    case Continue
    with s ephemeralKept_trans [OF k afterSweep_kept [of w1 env tid results setBlock]]
    show ?thesis by (simp add: dispatch_def)
  next
    case Returned
    with s k show ?thesis by (simp add: dispatch_def)
  next
    case (Threw e)
    with s k show ?thesis by (simp add: dispatch_def)
  qed
qed

lemma summarize_kept: "ephemeralKept w (summarize env tid service messages m r w)"
  by (auto simp: summarize_def callGenerateMessage_def Let_def split: sum.splits prod.splits)

lemma afterResponse_kept:
  "ephemeralKept w (snd (afterResponse env tid task service messages m r w))"
proof -
  let ?w1 = "call (MessagesCreate tid ASSISTANT (contentBlocks r)) w"
  have "ephemeralKept w ?w1" by simp
  from ephemeralKept_trans [OF this summarize_kept [of ?w1 env tid service messages m r]]
  have "ephemeralKept w (summarize env tid service messages m r ?w1)" .
  from ephemeralKept_trans [OF this dispatch_kept]
  have "ephemeralKept w (snd (dispatch env tid task (contentBlocks r)
      (summarize env tid service messages m r ?w1)))" .
  then show ?thesis
    by (auto simp: afterResponse_def awaitUnit_def Let_def stopAfter_def split: option.splits)
qed

lemma consultModel_kept: "ephemeralKept w (snd (consultModel env tid task messages w))"
proof -
  let ?m = "resolveModel (model task)"
  let ?g = "GenerateMessage (provider ?m) AGENT_SYSTEM_PROMPT messages (name ?m) True"
  have "\<And>service r. ephemeralKept w
      (snd (afterResponse env tid task service messages ?m r (call ?g w)))"
    using ephemeralKept_trans [OF _ afterResponse_kept, of w "call ?g w"] by simp
  then show ?thesis
    by (auto simp: consultModel_def awaitUnit_def Let_def stopAfter_def callGenerateMessage_def
        afterResponse_kept split: option.splits sum.splits)
qed

lemma tryIteration_kept: "ephemeralKept w (snd (tryIteration env tid w))"
proof -
  let ?w1 = "w\<lparr>abortController := Some (AbortController False)\<rparr>"
  have r: "ephemeralKept w ?w1" by (simp add: ephemeralKept_def tablesKept_def)
  have "\<And>task msgs. ephemeralKept w (snd (consultModel env tid task msgs ?w1))"
    using ephemeralKept_trans [OF r consultModel_kept] .
  with r show ?thesis
    by (auto simp: tryIteration_def awaitRead_def Let_def stopAfter_def split: sum.splits)
qed

lemma catchBlock_kept: "tablesKept w (catchBlock env tid err w)"
  by (auto simp: catchBlock_def call_def finishFailed_def Let_def tablesKept_def
      split: option.splits)

lemma runIteration_kept: "tablesKept w (runIteration env tid w)"
proof -
  obtain r w1 where t: "tryIteration env tid w = (r, w1)"
    by (cases "tryIteration env tid w") auto
  from tryIteration_kept [of w env tid] t have k: "tablesKept w w1"
    by (simp add: ephemeralKept_def)
  have refl: "tablesKept w w" by (simp add: tablesKept_def)
  show ?thesis
    using t k refl tablesKept_trans [OF k catchBlock_kept]
    by (cases r) (auto simp: runIteration_def)
qed

lemma stopProcessing_kept:
  "retryCounts (stopProcessing env w) = retryCounts w \<and>
   computerToolFailures (stopProcessing env w) = computerToolFailures w \<and>
   computerToolsDisabled (stopProcessing env w) = computerToolsDisabled w"
  by (auto simp: stopProcessing_def Let_def call_def abort_def clearProcessing_def
      split: option.splits)

lemma step_kept: "tablesKept w (step ev w)"
proof (cases ev)
  case (ProcessTask env tid)
  let ?w1 = "w\<lparr>isProcessing := True, currentTaskId := Some tid,
             abortController := Some (AbortController False)\<rparr>"
  have "tablesKept w ?w1" by (simp add: tablesKept_def)
  from tablesKept_trans [OF this runIteration_kept] ProcessTask show ?thesis
    by (simp add: processTask_def) (simp add: tablesKept_def)
next
  case (Iteration env tid)
  then show ?thesis by (simp add: runIteration_kept)
next
  case (RetryTimer env tid)
  then show ?thesis by (simp add: retryCallback_def runIteration_kept) (simp add: tablesKept_def)
next
  case (Takeover tid)
  then show ?thesis
    by (simp add: handleTaskTakeover_def call_def abort_def tablesKept_def)
next
  case (Resume env tid)
  let ?w1 = "w\<lparr>abortController := Some (AbortController False)\<rparr>"
  have "tablesKept w ?w1" by (simp add: tablesKept_def)
  from tablesKept_trans [OF this runIteration_kept] Resume show ?thesis
    by (simp add: handleTaskResume_def) (simp add: tablesKept_def)
next
  case (Cancel env tid)
  then show ?thesis by (simp add: handleTaskCancel_def stopProcessing_kept tablesKept_def)
next
  case (StopProcessing env)
  then show ?thesis by (simp add: stopProcessing_kept tablesKept_def)
qed

lemma catchBlock_retryCounts:
  "retryCounts (catchBlock env tid err w) =
     (if isInterrupt err then
        (if (case retryCounts w tid of None \<Rightarrow> 0 | Some k \<Rightarrow> k) < 3
         then (retryCounts w)(tid \<mapsto> (case retryCounts w tid of None \<Rightarrow> 0 | Some k \<Rightarrow> k) + 1)
         else if tasksUpdate env interruptedUpdate = None then (retryCounts w)(tid := None)
         else retryCounts w)
      else
        (case err_message err of
           None \<Rightarrow> retryCounts w
         | Some msg \<Rightarrow>
             if tasksUpdate env (failedUpdate (Some (errorText msg ''Processing error''))) = None
             then (retryCounts w)(tid := None)
             else retryCounts w))"
  by (auto simp: catchBlock_def call_def finishFailed_def Let_def MAX_INTERRUPT_RETRIES_def
      split: option.splits)

lemma runIteration_retryCounts:
  "retryCounts (runIteration env tid w) = retryCounts w \<or>
   (isProcessing w \<and>
    (\<exists>err w1. tryIteration env tid w = (Some err, w1) \<and> retryCounts w1 = retryCounts w \<and>
       runIteration env tid w = catchBlock env tid err w1))"
proof -
  obtain r w1 where t: "tryIteration env tid w = (r, w1)"
    by (cases "tryIteration env tid w") auto
  from tryIteration_kept [of w env tid] t have k: "retryCounts w1 = retryCounts w"
    by (simp add: ephemeralKept_def)
  show ?thesis
    using t k by (cases r) (auto simp: runIteration_def)
qed

lemma step_retryCounts:
  "retryCounts (step ev w) \<noteq> retryCounts w \<Longrightarrow>
     \<exists>env tid w0 err w1. iterationOf ev w = Some (env, tid, w0) \<and> isProcessing w0 \<and>
        tryIteration env tid w0 = (Some err, w1) \<and> retryCounts w1 = retryCounts w \<and>
        step ev w = catchBlock env tid err w1"
proof (cases ev)
  case (ProcessTask env tid)
  assume c: "retryCounts (step ev w) \<noteq> retryCounts w"
  let ?w0 = "w\<lparr>isProcessing := True, currentTaskId := Some tid,
             abortController := Some (AbortController False)\<rparr>"
  from c ProcessTask have np: "\<not> isProcessing w" by (auto simp: processTask_def)
  with ProcessTask have s: "step ev w = runIteration env tid ?w0"
    by (simp add: processTask_def)
  from runIteration_retryCounts [of env tid ?w0] c s
  show ?thesis using ProcessTask np by auto
next
  case (Iteration env tid)
  assume c: "retryCounts (step ev w) \<noteq> retryCounts w"
  from runIteration_retryCounts [of env tid w] c Iteration
  show ?thesis by auto
next
  case (RetryTimer env tid)
  assume c: "retryCounts (step ev w) \<noteq> retryCounts w"
  from c RetryTimer have p: "isProcessing w \<and> currentTaskId w = Some tid"
    by (auto simp: retryCallback_def split: if_splits)
  with RetryTimer have s: "step ev w = runIteration env tid w"
    by (simp add: retryCallback_def)
  from runIteration_retryCounts [of env tid w] c s
  show ?thesis using RetryTimer p by auto
next
  case (Takeover tid)
  assume "retryCounts (step ev w) \<noteq> retryCounts w"
  with Takeover show ?thesis
    by (auto simp: handleTaskTakeover_def call_def abort_def split: if_splits)
next
  case (Resume env tid)
  assume c: "retryCounts (step ev w) \<noteq> retryCounts w"
  let ?w0 = "w\<lparr>abortController := Some (AbortController False)\<rparr>"
  from c Resume have p: "currentTaskId w = Some tid \<and> isProcessing w"
    by (auto simp: handleTaskResume_def split: if_splits)
  with Resume have s: "step ev w = runIteration env tid ?w0"
    by (simp add: handleTaskResume_def)
  from runIteration_retryCounts [of env tid ?w0] c s
  show ?thesis using Resume p by auto
next
  case (Cancel env tid)
  assume "retryCounts (step ev w) \<noteq> retryCounts w"
  with Cancel show ?thesis by (simp add: handleTaskCancel_def stopProcessing_kept)
next
  case (StopProcessing env)
  assume "retryCounts (step ev w) \<noteq> retryCounts w"
  with StopProcessing show ?thesis by (simp add: stopProcessing_kept)
qed

text \<open>
  C1, amended: no iteration and no lifecycle operation ever removes or lowers a
  failure count of \<open>computerToolFailures\<close>, and none removes or resets an entry of
  \<open>computerToolsDisabled\<close> (an entry is as it was, or has been set to \<open>true\<close>).
  \<open>retryCounts\<close> changes only when an event runs an iteration whose body throws, and
  then by the handler of that iteration alone: the handler counts one more retry for a
  retried interrupt, deletes the entry of the task when it ends the task (NEEDS_HELP
  once three retries are counted, FAILED on any other error with a message) and its
  update does not throw, and otherwise leaves the table as it is. \<open>stopProcessing\<close>
  leaves the three tables unchanged.
\<close>

theorem ephemeral_state_kept:
  "(computerToolFailures w t = Some n \<longrightarrow>
      (\<exists>m. computerToolFailures (step ev w) t = Some m \<and> n \<le> m)) \<and>
   (computerToolsDisabled (step ev w) t = computerToolsDisabled w t \<or>
    computerToolsDisabled (step ev w) t = Some True) \<and>
   (retryCounts (step ev w) \<noteq> retryCounts w \<longrightarrow>
      (\<exists>env tid w0 err w1. iterationOf ev w = Some (env, tid, w0) \<and> isProcessing w0 \<and>
         tryIteration env tid w0 = (Some err, w1) \<and> retryCounts w1 = retryCounts w \<and>
         step ev w = catchBlock env tid err w1)) \<and>
   retryCounts (catchBlock env' tid' err' w) =
     (if isInterrupt err' then
        (if (case retryCounts w tid' of None \<Rightarrow> 0 | Some k \<Rightarrow> k) < 3
         then (retryCounts w)(tid' \<mapsto> (case retryCounts w tid' of None \<Rightarrow> 0 | Some k \<Rightarrow> k) + 1)
         else if tasksUpdate env' interruptedUpdate = None then (retryCounts w)(tid' := None)
         else retryCounts w)
      else
        (case err_message err' of
           None \<Rightarrow> retryCounts w
         | Some msg \<Rightarrow>
             if tasksUpdate env' (failedUpdate (Some (errorText msg ''Processing error''))) = None
             then (retryCounts w)(tid' := None)
             else retryCounts w)) \<and>
   retryCounts (stopProcessing env' w) = retryCounts w \<and>
   computerToolFailures (stopProcessing env' w) = computerToolFailures w \<and>
   computerToolsDisabled (stopProcessing env' w) = computerToolsDisabled w"
proof (intro conjI impI)
  assume "computerToolFailures w t = Some n"
  with step_kept [of w ev] show "\<exists>m. computerToolFailures (step ev w) t = Some m \<and> n \<le> m"
    by (simp add: tablesKept_def)
next
  from step_kept [of w ev]
  show "computerToolsDisabled (step ev w) t = computerToolsDisabled w t \<or>
    computerToolsDisabled (step ev w) t = Some True"
    by (simp add: tablesKept_def)
next
  assume "retryCounts (step ev w) \<noteq> retryCounts w"
  then show "\<exists>env tid w0 err w1. iterationOf ev w = Some (env, tid, w0) \<and> isProcessing w0 \<and>
         tryIteration env tid w0 = (Some err, w1) \<and> retryCounts w1 = retryCounts w \<and>
         step ev w = catchBlock env tid err w1"
    by (rule step_retryCounts)
qed (simp_all add: catchBlock_retryCounts stopProcessing_kept)

text \<open>
  C1, as stated: once a task has reached a terminal status, or its processing has
  stopped, no ephemeral entry of the task is left. Here a turn fails once at the
  desktop and declares the task completed; the task is COMPLETED, the next iteration
  and \<open>stopProcessing\<close> find nothing to do, and the failure count of the task is
  still in the table.
\<close>

theorem ephemeral_state_counterexample:
  "TasksUpdate ''t'' \<lparr>upd_status = COMPLETED, upd_error = None, upd_completedAt = True\<rparr>
     \<in> set (trace (run [ProcessTask completingEnv ''t'', Iteration completedEnv ''t'',
                           StopProcessing completedEnv] initial)) \<and>
   \<not> isProcessing (run [ProcessTask completingEnv ''t'', Iteration completedEnv ''t'',
                           StopProcessing completedEnv] initial) \<and>
   \<not> ephemeralCleared ''t'' (run [ProcessTask completingEnv ''t'', Iteration completedEnv ''t'',
                           StopProcessing completedEnv] initial)"
  by (simp add: run_def completingEnv_def completedEnv_def sampleEnv_def gptTask_def runningTask_def
      processTask_def stopProcessing_def abort_def
      initial_def iteration_defs assembleMessages_def resolveModel_def
      inferProvider_def startsWith_def services_def knownProviders_def summarize_def
      shouldSummarize_def effectiveContextWindow_def screenshot_def setStatus_def
      dispatch_def afterSweep_def applyStatus_def statusUpdateOf_def scheduleNext_def
      computerStep_def createTaskStep_def setTaskStatusStep_def completedUpdate_def
      ephemeralCleared_def Let_def)

theorem ephemeral_state_kept_witness:
  "computerToolFailures oneFailure ''t'' = Some 1 \<and>
   computerToolFailures (step (StopProcessing happyEnv) oneFailure) ''t'' = Some 1 \<and>
   computerToolsDisabled (step (Cancel happyEnv ''t'') degradedT) ''t'' = Some True \<and>
   retryCounts retriedTwice ''t'' = Some 2 \<and>
   retryCounts (step (Iteration failingStoreEnv ''t'') retriedTwice) ''t'' = None \<and>
   iterationOf (Iteration failingStoreEnv ''t'') retriedTwice =
     Some (failingStoreEnv, ''t'', retriedTwice)"
  using ephemeral_state_kept [of oneFailure "''t''" 1 "StopProcessing happyEnv" happyEnv "''t''"
      notAFunction]
    ephemeral_state_kept [of degradedT "''t''" 0 "Cancel happyEnv ''t''" happyEnv "''t''"
      notAFunction]
    ephemeral_state_kept [of retriedTwice "''t''" 0 "Iteration failingStoreEnv ''t''"
      failingStoreEnv "''t''" "\<lparr>err_name = Some ''Error'', err_message = Some ''connection lost''\<rparr>"]
  by (simp add: oneFailure_def degradedT_def retriedTwice_def processingT_def initial_def
      happyEnv_def failingStoreEnv_def sampleEnv_def stopProcessing_def handleTaskCancel_def
      abort_def call_def clearProcessing_def runIteration_def tryIteration_def awaitRead_def
      catchBlock_def isInterrupt_def finishFailed_def Let_def)

end
